theory Spec2Isabelle
  imports
    Main
    "HOL-Library.Word"
    "HOL-Library.AList"
    "HOL-Library.Multiset"
    "HOL-Library.Char_ord"
    "HOL-Library.List_Lexorder"
begin

section \<open>Shared value types\<close>

text \<open>
  Go's \<^verbatim>\<open>uuid.UUID\<close> is \<^verbatim>\<open>[16]byte\<close>: a list of sixteen bytes.  \<^verbatim>\<open>time.Time\<close> is kept as
  a number of seconds, \<open>0\<close> being the zero time.  A run-time panic of the Go program (and
  \<^verbatim>\<open>log.Fatalf\<close>) is a value of type \<open>panic\<close>: a function that can panic returns
  \<open>panic + 'a\<close>, with \<open>Inl\<close> for the panic.
\<close>

type_synonym uuid = "8 word list"
type_synonym time = nat

datatype panic =
    IndexOutOfRange
  | NilPointerDereference
  | AssignmentToNilMap
  | PanicMsg string

text \<open>Go's \<^verbatim>\<open>xs[i]\<close> with an \<^verbatim>\<open>int\<close> index: out of range (also negative) it panics.\<close>

definition index :: "'a list \<Rightarrow> int \<Rightarrow> 'a option" where
  "index xs i = (if 0 \<le> i \<and> i < int (length xs) then Some (xs ! nat i) else None)"

section \<open>internal/common/states.go\<close>

text \<open>
  \<^verbatim>\<open>type ImageBuildState int\<close> with the constants numbered by \<^verbatim>\<open>iota\<close>.  The type is an
  integer, so values other than the four constants exist and reach the \<^verbatim>\<open>default\<close> branch
  of a \<^verbatim>\<open>switch\<close>.  \<^verbatim>\<open>ComposeState\<close> is declared the same way.
\<close>

type_synonym ImageBuildState = int

definition IBWaiting :: ImageBuildState where "IBWaiting = 0"
definition IBRunning :: ImageBuildState where "IBRunning = 1"
definition IBFinished :: ImageBuildState where "IBFinished = 2"
definition IBFailed :: ImageBuildState where "IBFailed = 3"

type_synonym ComposeState = int

definition CWaiting :: ComposeState where "CWaiting = 0"
definition CRunning :: ComposeState where "CRunning = 1"
definition CFinished :: ComposeState where "CFinished = 2"
definition CFailed :: ComposeState where "CFailed = 3"

section \<open>internal/compose/compose.go\<close>

text \<open>
  Modelled from the spec: the packages \<^verbatim>\<open>target\<close> and \<^verbatim>\<open>blueprint\<close> are not part of the
  sources at hand.  A target is a delivery endpoint with a status and options, the options
  being a tagged union with a local variant that carries a file name; a blueprint has a name
  and a semantic version and an opaque body.
\<close>

datatype TargetOptions = LocalTargetOptions string | OtherTargetOptions string

record Target =
  Status :: ImageBuildState
  Options :: TargetOptions

record Blueprint =
  bp_Name :: string
  bp_Version :: string
  bp_Body :: string

text \<open>
  \<^verbatim>\<open>Targets []*target.Target\<close> is a slice of pointers: an entry is \<open>None\<close> for a nil
  pointer and \<open>Some t\<close> for a pointer to the target \<open>t\<close>.  The manifest is opaque.
\<close>

record ImageBuild =
  ib_Id :: int
  ImageType :: int
  Manifest :: "string option"
  Targets :: "Target option list"
  JobCreated :: time
  JobStarted :: time
  JobFinished :: time
  Size :: nat
  JobId :: uuid
  QueueStatus :: ImageBuildState

record Compose =
  compose_Blueprint :: "Blueprint option"
  ImageBuilds :: "ImageBuild list"

datatype StateTransitionError = StateTransitionError string

text \<open>
  The loop \<^verbatim>\<open>for _, t := range Targets { t.Status = newState }\<close>; writing through a nil
  pointer panics.
\<close>

fun set_targets_status :: "ImageBuildState \<Rightarrow> Target option list \<Rightarrow> Target option list option" where
  "set_targets_status newState [] = Some []"
| "set_targets_status newState (None # ts) = None"
| "set_targets_status newState (Some t # ts) =
     (case set_targets_status newState ts of
        None \<Rightarrow> None
      | Some ts' \<Rightarrow> Some (Some (t\<lparr>Status := newState\<rparr>) # ts'))"

definition set_image_build :: "Compose \<Rightarrow> int \<Rightarrow> ImageBuild \<Rightarrow> Compose" where
  "set_image_build c i ib = c\<lparr>ImageBuilds := (ImageBuilds c)[nat i := ib]\<rparr>"

text \<open>
  \<^verbatim>\<open>func (c *Compose) UpdateState(imageBuildId int, newState common.ImageBuildState) error\<close>.
  The method changes the compose in place and returns an error or nil; the model returns
  the error (\<open>None\<close> for nil) and the compose after the call.
\<close>

definition UpdateState ::
    "Compose \<Rightarrow> int \<Rightarrow> ImageBuildState \<Rightarrow> panic + (StateTransitionError option \<times> Compose)" where
  "UpdateState c imageBuildId newState =
     (if newState = IBWaiting then
        Inr (Some (StateTransitionError ''image build cannot be moved into waiting state''), c)
      else if newState = IBRunning then
        (case index (ImageBuilds c) imageBuildId of
           None \<Rightarrow> Inl IndexOutOfRange
         | Some ib \<Rightarrow>
             if QueueStatus ib = IBWaiting \<or> QueueStatus ib = IBRunning then
               Inr (None, set_image_build c imageBuildId (ib\<lparr>QueueStatus := newState\<rparr>))
             else
               Inr (Some (StateTransitionError
                 ''only waiting image build can be transitioned into running state''), c))
      else if newState = IBFinished \<or> newState = IBFailed then
        (case index (ImageBuilds c) imageBuildId of
           None \<Rightarrow> Inl IndexOutOfRange
         | Some ib \<Rightarrow>
             if QueueStatus ib = IBRunning then
               (case set_targets_status newState (Targets ib) of
                  None \<Rightarrow> Inl NilPointerDereference
                | Some ts \<Rightarrow>
                    Inr (None, set_image_build c imageBuildId
                                 (ib\<lparr>QueueStatus := newState, Targets := ts\<rparr>)))
             else
               Inr (Some (StateTransitionError
                 ''only running image build can be transitioned into finished or failed state''), c))
      else
        Inr (Some (StateTransitionError ''invalid state''), c))"

text \<open>
  The four transitions of the image-build state machine, and what it is for a call to
  succeed: it returns, and the error it returns is nil.
\<close>

definition allowed_transition :: "ImageBuildState \<Rightarrow> ImageBuildState \<Rightarrow> bool" where
  "allowed_transition old new \<longleftrightarrow>
     (old = IBWaiting \<and> new = IBRunning) \<or>
     (old = IBRunning \<and> new = IBRunning) \<or>
     (old = IBRunning \<and> new = IBFinished) \<or>
     (old = IBRunning \<and> new = IBFailed)"

definition succeeded :: "panic + ('e option \<times> 'a) \<Rightarrow> bool" where
  "succeeded r = (case r of Inr (None, c) \<Rightarrow> True | _ \<Rightarrow> False)"

section \<open>The Go library, as far as the program uses it\<close>

text \<open>
  A Go map that the program ranges over is an association list: its keys are distinct and
  the order of the list is the order in which \<^verbatim>\<open>range\<close> happens to visit the entries,
  which Go leaves unspecified.  Maps that are only read and written by key are partial
  functions.  A map-typed value can also be the nil map: reading it is like reading an
  empty map, assigning into it panics.
\<close>

text \<open>
  \<^verbatim>\<open>sort.Slice\<close> is a parameter \<open>srt\<close> of the functions that call it.  Its documented
  contract is \<open>sorts\<close>: when the comparison \<open>lt\<close> is a transitive ordering in the sense
  of \<^verbatim>\<open>sort.Interface\<close> (no element is below itself; if \<open>lt a b\<close> and \<open>lt b c\<close> then
  \<open>lt a c\<close>; if neither \<open>lt a b\<close> nor \<open>lt b c\<close> then not \<open>lt a c\<close>), the result is a
  rearrangement of the input in which no element is below an earlier one.
\<close>

definition strict_weak_order :: "('a \<Rightarrow> 'a \<Rightarrow> bool) \<Rightarrow> bool" where
  "strict_weak_order lt \<longleftrightarrow>
     (\<forall>a. \<not> lt a a) \<and>
     (\<forall>a b c. lt a b \<and> lt b c \<longrightarrow> lt a c) \<and>
     (\<forall>a b c. \<not> lt a b \<and> \<not> lt b c \<longrightarrow> \<not> lt a c)"

definition sorts :: "(('a \<Rightarrow> 'a \<Rightarrow> bool) \<Rightarrow> 'a list \<Rightarrow> 'a list) \<Rightarrow> bool" where
  "sorts srt \<longleftrightarrow>
     (\<forall>lt xs. strict_weak_order lt \<longrightarrow>
        mset (srt lt xs) = mset xs \<and> sorted_wrt (\<lambda>a b. \<not> lt b a) (srt lt xs))"

text \<open>
  The insertion sort of Go's \<^verbatim>\<open>sort\<close> package,
  \<^verbatim>\<open>for i := a+1; i < b; i++ { for j := i; j > a && less(j, j-1); j-- { swap(j, j-1) } }\<close>,
  which is all that \<^verbatim>\<open>sort.Slice\<close> runs on a slice of at most six elements.  \<open>sift\<close> is the
  inner loop: it moves \<open>x\<close> to the left through the already processed elements, which
  are passed nearest first.
\<close>

fun sift :: "('a \<Rightarrow> 'a \<Rightarrow> bool) \<Rightarrow> 'a \<Rightarrow> 'a list \<Rightarrow> 'a list" where
  "sift lt x [] = [x]"
| "sift lt x (y # ys) = (if lt x y then y # sift lt x ys else x # y # ys)"

definition insertionSort :: "('a \<Rightarrow> 'a \<Rightarrow> bool) \<Rightarrow> 'a list \<Rightarrow> 'a list" where
  "insertionSort lt xs = rev (fold (sift lt) xs [])"

text \<open>Go's \<^verbatim>\<open>int\<close> on a 64-bit platform: it wraps around.\<close>

definition wrap64 :: "int \<Rightarrow> int" where
  "wrap64 x = (x + 2 ^ 63) mod 2 ^ 64 - 2 ^ 63"

section \<open>internal/store/store.go\<close>

text \<open>
  Modelled from the spec: \<^verbatim>\<open>blueprint.Change\<close> is declared in the package \<^verbatim>\<open>blueprint\<close>,
  which is not part of the sources at hand; the store uses the fields below.
  \<^verbatim>\<open>Revision *int\<close> is \<open>None\<close> for nil.
\<close>

record Change =
  Commit :: string
  Message :: string
  Timestamp :: string
  change_Blueprint :: Blueprint
  Revision :: "int option"

definition zero_Blueprint :: Blueprint where
  "zero_Blueprint = \<lparr>bp_Name = [], bp_Version = [], bp_Body = []\<rparr>"

definition zero_Change :: Change where
  "zero_Change =
     \<lparr>Commit = [], Message = [], Timestamp = [], change_Blueprint = zero_Blueprint,
      Revision = None\<rparr>"

record SourceConfig =
  sc_Name :: string
  sc_Type :: string
  sc_URL :: string
  CheckGPG :: bool
  CheckSSL :: bool
  System :: bool

text \<open>\<^verbatim>\<open>map[string]blueprint.Change\<close>; \<open>None\<close> is the nil map.\<close>

type_synonym change_map = "(string \<times> Change) list option"

text \<open>
  The exported fields of \<^verbatim>\<open>Store\<close> and \<^verbatim>\<open>stateDir\<close>.  The mutex, the unused channel
  \<^verbatim>\<open>pendingJobs\<close> and the database handle are left out: every operation below is one
  critical section, and what the database does is an input of the operation.
\<close>

record Store =
  Blueprints :: "string \<rightharpoonup> Blueprint"
  Workspace :: "string \<rightharpoonup> Blueprint"
  Composes :: "(uuid \<times> Compose) list"
  Sources :: "string \<rightharpoonup> SourceConfig"
  BlueprintsChanges :: "(string \<times> change_map) list"
  BlueprintsCommits :: "string \<rightharpoonup> string list"
  stateDir :: "string option"

datatype store_error =
    NotFoundError string
  | NotPendingError string
  | InvalidRequestError string
  | NoLocalTargetError string
  | ErrorString string

text \<open>\<^verbatim>\<open>s.BlueprintsChanges[name]\<close>: the nil map when the key is absent.\<close>

definition get_changes :: "Store \<Rightarrow> string \<Rightarrow> change_map" where
  "get_changes s name = (case map_of (BlueprintsChanges s) name of None \<Rightarrow> None | Some m \<Rightarrow> m)"

text \<open>\<^verbatim>\<open>s.BlueprintsCommits[name]\<close>: the nil slice when the key is absent.\<close>

definition get_commits :: "Store \<Rightarrow> string \<Rightarrow> string list" where
  "get_commits s name = (case BlueprintsCommits s name of None \<Rightarrow> [] | Some cs \<Rightarrow> cs)"

text \<open>\<^verbatim>\<open>m[commit]\<close> on a \<^verbatim>\<open>map[string]blueprint.Change\<close>: the zero change when absent.\<close>

definition lookup_change :: "change_map \<Rightarrow> string \<Rightarrow> Change" where
  "lookup_change m commit =
     (case m of
        None \<Rightarrow> zero_Change
      | Some al \<Rightarrow> (case map_of al commit of None \<Rightarrow> zero_Change | Some c \<Rightarrow> c))"

text \<open>\<^verbatim>\<open>len(m)\<close> and the values met by \<^verbatim>\<open>for commit := range m\<close>.\<close>

definition len_changes :: "change_map \<Rightarrow> nat" where
  "len_changes m = (case m of None \<Rightarrow> 0 | Some al \<Rightarrow> length al)"

definition range_changes :: "change_map \<Rightarrow> Change list" where
  "range_changes m = (case m of None \<Rightarrow> [] | Some al \<Rightarrow> map snd al)"

subsection \<open>New\<close>

text \<open>
  What \<^verbatim>\<open>json\<close> leaves in the store after \<^verbatim>\<open>s.db.Read(StoreDBName, &s)\<close>: a map whose
  key is missing from the document stays nil (\<open>None\<close>).  \<open>Unreadable\<close> is a read that
  returns an error, \<open>Absent\<close> a state directory without a state document.
\<close>

record StoreDoc =
  doc_blueprints :: "(string \<rightharpoonup> Blueprint) option"
  doc_workspace :: "(string \<rightharpoonup> Blueprint) option"
  doc_composes :: "(uuid \<times> Compose) list option"
  doc_sources :: "(string \<rightharpoonup> SourceConfig) option"
  doc_changes :: "(string \<times> change_map) list option"
  doc_commits :: "(string \<rightharpoonup> string list) option"

datatype state_file = Unreadable | Absent | Present StoreDoc

definition zero_StoreDoc :: StoreDoc where
  "zero_StoreDoc =
     \<lparr>doc_blueprints = None, doc_workspace = None, doc_composes = None,
      doc_sources = None, doc_changes = None, doc_commits = None\<rparr>"

text \<open>The inner loop over the image builds of one compose.\<close>

definition fail_unfinished :: "ImageBuild \<Rightarrow> ImageBuild" where
  "fail_unfinished imgBuild =
     (if QueueStatus imgBuild = IBRunning \<or> QueueStatus imgBuild = IBWaiting
      then imgBuild\<lparr>QueueStatus := IBFailed\<rparr> else imgBuild)"

text \<open>The loop \<^verbatim>\<open>for composeID, compose := range s.Composes\<close>.\<close>

fun fail_unfinished_composes :: "(uuid \<times> Compose) list \<Rightarrow> panic + (uuid \<times> Compose) list" where
  "fail_unfinished_composes [] = Inr []"
| "fail_unfinished_composes ((composeID, compose) # rest) =
     (if length (ImageBuilds compose) = 0 then
        Inl (PanicMsg ''the was a compose with zero image builds, that is forbidden'')
      else
        (case fail_unfinished_composes rest of
           Inl p \<Rightarrow> Inl p
         | Inr rest' \<Rightarrow>
             Inr ((composeID, compose\<lparr>ImageBuilds := map fail_unfinished (ImageBuilds compose)\<rparr>)
                  # rest')))"

text \<open>
  The package \<^verbatim>\<open>semver\<close> is a library: \<open>NewVersion\<close> parses a version (\<open>None\<close> when it
  does not parse), \<open>LessThan\<close> compares two versions and \<open>v000\<close> is the value of
  \<^verbatim>\<open>semver.New("0.0.0")\<close>, which is what \<open>NewVersion\<close> parses \<open>0.0.0\<close> to.
  \<open>change_less\<close> is the closure handed to \<^verbatim>\<open>sort.Slice\<close>.
\<close>

definition version_of ::
    "(string \<Rightarrow> 'v option) \<Rightarrow> 'v \<Rightarrow> Change \<Rightarrow> 'v" where
  "version_of NewVersion v000 c =
     (case NewVersion (bp_Version (change_Blueprint c)) of None \<Rightarrow> v000 | Some v \<Rightarrow> v)"

definition change_less ::
    "(string \<Rightarrow> 'v option) \<Rightarrow> ('v \<Rightarrow> 'v \<Rightarrow> bool) \<Rightarrow> 'v \<Rightarrow> Change \<Rightarrow> Change \<Rightarrow> bool" where
  "change_less NewVersion LessThan v000 ci cj =
     (if Timestamp ci = Timestamp cj then
        LessThan (version_of NewVersion v000 ci) (version_of NewVersion v000 cj)
      else Timestamp ci < Timestamp cj)"

text \<open>The body of \<^verbatim>\<open>for name := range s.BlueprintsChanges\<close> and the loop itself.\<close>

definition rebuild_commits ::
    "(Change \<Rightarrow> Change \<Rightarrow> bool) \<Rightarrow> ((Change \<Rightarrow> Change \<Rightarrow> bool) \<Rightarrow> Change list \<Rightarrow> Change list) \<Rightarrow>
     string \<Rightarrow> Store \<Rightarrow> Store" where
  "rebuild_commits lt srt name s =
     (if len_changes (get_changes s name) \<noteq> length (get_commits s name) then
        s\<lparr>BlueprintsCommits :=
            (BlueprintsCommits s)(name \<mapsto> map Commit (srt lt (range_changes (get_changes s name))))\<rparr>
      else s)"

definition New ::
    "((Change \<Rightarrow> Change \<Rightarrow> bool) \<Rightarrow> Change list \<Rightarrow> Change list) \<Rightarrow>
     (string \<Rightarrow> 'v option) \<Rightarrow> ('v \<Rightarrow> 'v \<Rightarrow> bool) \<Rightarrow> 'v \<Rightarrow>
     string option \<Rightarrow> bool \<Rightarrow> state_file \<Rightarrow> panic + Store" where
  "New srt NewVersion LessThan v000 dir mkdir_ok file =
     (if dir \<noteq> None \<and> \<not> mkdir_ok then Inl (PanicMsg ''cannot create output directory'')
      else if dir \<noteq> None \<and> file = Unreadable then Inl (PanicMsg ''cannot read state'')
      else
        let doc = (case (dir, file) of (Some d, Present p) \<Rightarrow> p | _ \<Rightarrow> zero_StoreDoc) in
        (case (case doc_composes doc of None \<Rightarrow> Inr [] | Some cs \<Rightarrow> fail_unfinished_composes cs) of
           Inl p \<Rightarrow> Inl p
         | Inr composes \<Rightarrow>
             let s = \<lparr>Blueprints = (case doc_blueprints doc of None \<Rightarrow> Map.empty | Some m \<Rightarrow> m),
                      Workspace = (case doc_workspace doc of None \<Rightarrow> Map.empty | Some m \<Rightarrow> m),
                      Composes = composes,
                      Sources = (case doc_sources doc of None \<Rightarrow> Map.empty | Some m \<Rightarrow> m),
                      BlueprintsChanges = (case doc_changes doc of None \<Rightarrow> [] | Some m \<Rightarrow> m),
                      BlueprintsCommits = (case doc_commits doc of None \<Rightarrow> Map.empty | Some m \<Rightarrow> m),
                      stateDir = dir\<rparr>
             in Inr (fold (rebuild_commits (change_less NewVersion LessThan v000) srt)
                       (map fst (BlueprintsChanges s)) s)))"

subsection \<open>change\<close>

text \<open>
  \<^verbatim>\<open>func (s *Store) change(f func() error) error\<close> runs \<open>f\<close> and then, when a state
  directory is configured, writes the store; a failed write panics.  \<open>write_ok\<close> says
  whether that write succeeds.
\<close>

definition change ::
    "bool \<Rightarrow> (Store \<Rightarrow> panic + ('e option \<times> Store)) \<Rightarrow> Store \<Rightarrow> panic + ('e option \<times> Store)" where
  "change write_ok f s =
     (case f s of
        Inl p \<Rightarrow> Inl p
      | Inr (result, s') \<Rightarrow>
          if stateDir s' \<noteq> None \<and> \<not> write_ok then Inl (PanicMsg ''cannot write state'')
          else Inr (result, s'))"

subsection \<open>Blueprint changes\<close>

definition GetBlueprintChange :: "Store \<Rightarrow> string \<Rightarrow> string \<Rightarrow> string + Change" where
  "GetBlueprintChange s name commit =
     (case map_of (BlueprintsChanges s) name of
        None \<Rightarrow> Inl ''Unknown blueprint''
      | Some m \<Rightarrow>
          (case (case m of None \<Rightarrow> None | Some al \<Rightarrow> map_of al commit) of
             None \<Rightarrow> Inl ''Unknown commit''
           | Some c \<Rightarrow> Inr c))"

definition GetBlueprintChanges :: "Store \<Rightarrow> string \<Rightarrow> Change list" where
  "GetBlueprintChanges s name =
     map (\<lambda>commit. lookup_change (get_changes s name) commit) (get_commits s name)"

text \<open>
  \<^verbatim>\<open>PushBlueprint\<close>.  \<open>random\<close> is the result of \<^verbatim>\<open>randomSHA1String()\<close> (\<open>None\<close> when it
  returns an error) and \<open>timestamp\<close> the formatted \<^verbatim>\<open>time.Now()\<close>.  \<^verbatim>\<open>Initialize\<close> and
  \<^verbatim>\<open>BumpVersion\<close> are methods of the package \<^verbatim>\<open>blueprint\<close>, which is not part of the
  sources at hand; they are parameters (\<open>Initialize\<close> gives \<open>None\<close> when it returns an
  error).
\<close>

definition PushBlueprint ::
    "(Blueprint \<Rightarrow> Blueprint option) \<Rightarrow> (Blueprint \<Rightarrow> string \<Rightarrow> Blueprint) \<Rightarrow> bool \<Rightarrow>
     string option \<Rightarrow> string \<Rightarrow> Blueprint \<Rightarrow> string \<Rightarrow> Store \<Rightarrow>
     panic + (store_error option \<times> Store)" where
  "PushBlueprint Initialize BumpVersion write_ok random timestamp bp commitMsg =
     change write_ok (\<lambda>s.
       (case random of
          None \<Rightarrow> Inr (Some (ErrorString ''randomSHA1String: short read from rand''), s)
        | Some commit \<Rightarrow>
            (case Initialize bp of
               None \<Rightarrow> Inr (Some (ErrorString ''cannot initialize the blueprint''), s)
             | Some bp1 \<Rightarrow>
                 let chg = \<lparr>Commit = commit, Message = commitMsg, Timestamp = timestamp,
                            change_Blueprint = bp1, Revision = None\<rparr>;
                     name = bp_Name bp1;
                     al = (case get_changes s name of None \<Rightarrow> [] | Some al \<Rightarrow> al);
                     bp2 = (case Blueprints s name of
                              None \<Rightarrow> bp1
                            | Some old \<Rightarrow>
                                if bp_Version bp1 = [] \<or> bp_Version bp1 = bp_Version old
                                then BumpVersion bp1 (bp_Version old) else bp1)
                 in Inr (None,
                      s\<lparr>Workspace := (Workspace s)(name := None),
                        BlueprintsChanges :=
                          AList.update name (Some (AList.update commit chg al)) (BlueprintsChanges s),
                        BlueprintsCommits :=
                          (BlueprintsCommits s)(name \<mapsto> get_commits s name @ [commit]),
                        Blueprints := (Blueprints s)(name \<mapsto> bp2)\<rparr>))))"

definition DeleteBlueprint :: "bool \<Rightarrow> string \<Rightarrow> Store \<Rightarrow> panic + (store_error option \<times> Store)" where
  "DeleteBlueprint write_ok name =
     change write_ok (\<lambda>s.
       let s1 = s\<lparr>Workspace := (Workspace s)(name := None)\<rparr> in
       (case Blueprints s1 name of
          None \<Rightarrow> Inr (Some (ErrorString (''Unknown blueprint: '' @ name)), s1)
        | Some bp \<Rightarrow> Inr (None, s1\<lparr>Blueprints := (Blueprints s1)(name := None)\<rparr>)))"

text \<open>
  The loop of \<^verbatim>\<open>TagBlueprint\<close> that walks the commits from the newest to the oldest; it is
  given the commits newest first, and the variables \<^verbatim>\<open>revision\<close> and \<^verbatim>\<open>change\<close>
  (\<open>chg\<close>).
\<close>

fun latest_revision_loop :: "change_map \<Rightarrow> string list \<Rightarrow> int \<Rightarrow> Change \<Rightarrow> int \<times> Change" where
  "latest_revision_loop m [] revision chg = (revision, chg)"
| "latest_revision_loop m (commit # older) revision chg =
     (let chg' = lookup_change m commit in
      case Revision chg' of
        None \<Rightarrow> latest_revision_loop m older revision chg'
      | Some r \<Rightarrow>
          if r > revision then (r, chg')
          else latest_revision_loop m older revision chg')"

definition TagBlueprint :: "bool \<Rightarrow> string \<Rightarrow> Store \<Rightarrow> panic + (store_error option \<times> Store)" where
  "TagBlueprint write_ok name =
     change write_ok (\<lambda>s.
       (case Blueprints s name of
          None \<Rightarrow> Inr (Some (ErrorString ''Unknown blueprint''), s)
        | Some bp \<Rightarrow>
            if length (get_commits s name) = 0 then
              Inr (Some (ErrorString ''No commits for blueprint''), s)
            else
              let latest = last (get_commits s name) in
              if Revision (lookup_change (get_changes s name) latest) \<noteq> None then Inr (None, s)
              else
                let (revision, chg) =
                      latest_revision_loop (get_changes s name) (rev (get_commits s name)) 0 zero_Change;
                    revision' = wrap64 (revision + 1);
                    chg' = chg\<lparr>Revision := Some revision'\<rparr>
                in (case get_changes s name of
                      None \<Rightarrow> Inl AssignmentToNilMap
                    | Some al \<Rightarrow>
                        Inr (None, s\<lparr>BlueprintsChanges :=
                               AList.update name (Some (AList.update latest chg' al))
                                 (BlueprintsChanges s)\<rparr>))))"

subsection \<open>UpdateImageBuildInCompose\<close>

text \<open>
  \<open>has_result\<close> says whether \<^verbatim>\<open>result\<close> is not nil, \<open>create_ok\<close> whether
  \<^verbatim>\<open>os.Create\<close> of the result file succeeds, \<open>now\<close> is \<^verbatim>\<open>time.Now()\<close>.
  \<open>stamp_JobFinished\<close> is the assignment to \<^verbatim>\<open>JobFinished\<close> after a transition into a
  final state; it runs after \<^verbatim>\<open>UpdateState\<close> has returned nil, so the index is in range.
\<close>

definition stamp_JobFinished :: "time \<Rightarrow> int \<Rightarrow> ImageBuildState \<Rightarrow> Compose \<Rightarrow> Compose" where
  "stamp_JobFinished now imageBuildID status c =
     (if status = IBFinished \<or> status = IBFailed then
        c\<lparr>ImageBuilds :=
            (ImageBuilds c)[nat imageBuildID :=
               (ImageBuilds c ! nat imageBuildID)\<lparr>JobFinished := now\<rparr>]\<rparr>
      else c)"

definition UpdateImageBuildInCompose ::
    "bool \<Rightarrow> bool \<Rightarrow> time \<Rightarrow> uuid \<Rightarrow> int \<Rightarrow> ImageBuildState \<Rightarrow> bool \<Rightarrow> Store \<Rightarrow>
     panic + (store_error option \<times> Store)" where
  "UpdateImageBuildInCompose write_ok create_ok now composeID imageBuildID status has_result =
     change write_ok (\<lambda>s.
       (case map_of (Composes s) composeID of
          None \<Rightarrow> Inr (Some (NotFoundError ''compose does not exist''), s)
        | Some currentCompose \<Rightarrow>
            (case index (ImageBuilds currentCompose) imageBuildID of
               None \<Rightarrow> Inl IndexOutOfRange
             | Some ib \<Rightarrow>
                 if QueueStatus ib = IBWaiting then
                   Inr (Some (NotPendingError ''compose has not been popped''), s)
                 else if stateDir s \<noteq> None \<and> has_result \<and> \<not> create_ok then
                   Inr (Some (ErrorString ''cannot open result.json for job''), s)
                 else
                   (case UpdateState currentCompose imageBuildID status of
                      Inl p \<Rightarrow> Inl p
                    | Inr (Some (StateTransitionError msg), c) \<Rightarrow>
                        Inr (Some (InvalidRequestError (''invalid state transition: '' @ msg)), s)
                    | Inr (None, c) \<Rightarrow>
                        Inr (None, s\<lparr>Composes :=
                               AList.update composeID (stamp_JobFinished now imageBuildID status c)
                                 (Composes s)\<rparr>)))))"

section \<open>internal/jobqueue/fsjobqueue\<close>

text \<open>
  Modelled from the spec: the package \<^verbatim>\<open>jobqueue\<close> (the job states and the errors
  \<^verbatim>\<open>ErrNotExist\<close> and \<^verbatim>\<open>ErrNotRunning\<close>) and the package \<^verbatim>\<open>jsondb\<close> are not part of the
  sources at hand.  A job is Pending, Running or Finished.  The database maps a key to a
  document; reading a missing key reports that it does not exist, reading a document that
  does not parse is an error, and a write replaces the document of its key or fails and
  leaves it as it was.  A document of the queue's directory is \<open>Document j\<close> when it parses
  to the job \<open>j\<close>, and \<open>Corrupt\<close> otherwise.
\<close>

datatype JobStatus = JobPending | JobRunning | JobFinished

datatype queue_error =
    ErrNotExist
  | ErrNotRunning
  | ContextError string
  | QueueError string

type_synonym json = string

record job =
  job_Id :: uuid
  job_Type :: string
  Args :: json
  Dependencies :: "uuid list"
  Result :: json
  job_Status :: JobStatus
  QueuedAt :: time
  StartedAt :: time
  FinishedAt :: time

datatype document = Document job | Corrupt

text \<open>
  The queue: the directory of job documents, keyed by job id; the pending channels, a
  channel being the list of the ids it buffers with the next one to be received first; and
  the map of dependants.
\<close>

record fsJobQueue =
  db :: "uuid \<rightharpoonup> document"
  pending :: "string \<rightharpoonup> uuid list"
  dependants :: "uuid \<rightharpoonup> uuid list"

text \<open>
  A call that waits on a channel may never return in a run without other goroutines:
  \<open>Blocks\<close>.  Otherwise it returns its results.
\<close>

datatype 'a outcome = Returns 'a | Blocks

definition uuid_Nil :: uuid where
  "uuid_Nil = [0, 0, 0, 0, 0, 0, 0, 0, 0, 0, 0, 0, 0, 0, 0, 0]"

definition readJob :: "fsJobQueue \<Rightarrow> uuid \<Rightarrow> queue_error + job" where
  "readJob q uid =
     (case db q uid of
        None \<Rightarrow> Inl ErrNotExist
      | Some Corrupt \<Rightarrow> Inl (QueueError ''error reading job'')
      | Some (Document j) \<Rightarrow> Inr j)"

fun countFinishedJobs :: "fsJobQueue \<Rightarrow> uuid list \<Rightarrow> queue_error + nat" where
  "countFinishedJobs q [] = Inr 0"
| "countFinishedJobs q (uid # ids) =
     (case readJob q uid of
        Inl err \<Rightarrow> Inl err
      | Inr j \<Rightarrow>
          (case countFinishedJobs q ids of
             Inl err \<Rightarrow> Inl err
           | Inr n \<Rightarrow> Inr (if job_Status j = JobFinished then n + 1 else n)))"

text \<open>
  \<^verbatim>\<open>pendingChannel\<close> creates the channel of a job type on first use.  \<open>channel\<close> reads
  what a channel buffers; \<open>send\<close> is \<^verbatim>\<open>q.pendingChannel(jobType) <- id\<close>, which waits
  (\<open>None\<close>) when the channel already buffers its capacity of 100 ids.
\<close>

definition pendingChannel :: "string \<Rightarrow> fsJobQueue \<Rightarrow> fsJobQueue" where
  "pendingChannel jobType q =
     (case pending q jobType of
        None \<Rightarrow> q\<lparr>pending := (pending q)(jobType \<mapsto> [])\<rparr>
      | Some c \<Rightarrow> q)"

definition channel :: "fsJobQueue \<Rightarrow> string \<Rightarrow> uuid list" where
  "channel q jobType = (case pending q jobType of None \<Rightarrow> [] | Some c \<Rightarrow> c)"

definition send :: "string \<Rightarrow> uuid \<Rightarrow> fsJobQueue \<Rightarrow> fsJobQueue option" where
  "send jobType uid q =
     (let q' = pendingChannel jobType q in
      if length (channel q' jobType) < 100
      then Some (q'\<lparr>pending := (pending q')(jobType \<mapsto> channel q' jobType @ [uid])\<rparr>)
      else None)"

subsection \<open>uniqueUUIDList\<close>

text \<open>
  \<open>uuid_less\<close> is the closure handed to \<^verbatim>\<open>sort.Slice\<close>:
  \<^verbatim>\<open>for b := 0; b < 16; b++ { if l[i][b] < l[j][b] { return true } }; return false\<close>.
  \<open>range_keys ord ids\<close> is the slice \<^verbatim>\<open>l\<close> before sorting: the keys of the map built from
  \<open>ids\<close>, in the order \<open>ord\<close> in which \<^verbatim>\<open>range\<close> happens to visit them (when \<open>ord\<close> is no
  enumeration of the keys, the order of first occurrence stands in).
\<close>

definition uuid_less :: "uuid \<Rightarrow> uuid \<Rightarrow> bool" where
  "uuid_less a b = list_ex (\<lambda>k. a ! k < b ! k) [0..<16]"

definition range_keys :: "'a list \<Rightarrow> 'a list \<Rightarrow> 'a list" where
  "range_keys ord ids = (if distinct ord \<and> set ord = set ids then ord else remdups ids)"

definition uniqueUUIDList ::
    "((uuid \<Rightarrow> uuid \<Rightarrow> bool) \<Rightarrow> uuid list \<Rightarrow> uuid list) \<Rightarrow> uuid list \<Rightarrow> uuid list \<Rightarrow> uuid list" where
  "uniqueUUIDList srt ord ids = srt uuid_less (range_keys ord ids)"

text \<open>
  What \<^verbatim>\<open>sort.Slice\<close> does for every comparison function, since it only swaps elements:
  it rearranges the slice.
\<close>

definition rearranges :: "(('a \<Rightarrow> 'a \<Rightarrow> bool) \<Rightarrow> 'a list \<Rightarrow> 'a list) \<Rightarrow> bool" where
  "rearranges srt \<longleftrightarrow> (\<forall>lt xs. mset (srt lt xs) = mset xs)"

subsection \<open>Enqueue\<close>

text \<open>
  The inputs that the code draws from its environment: \<open>srt\<close> and \<open>ord\<close> as above,
  \<open>marshal\<close> for \<^verbatim>\<open>json.Marshal\<close> (\<open>None\<close> when the value cannot be serialized),
  \<open>new_id\<close> for \<^verbatim>\<open>uuid.New()\<close>, \<open>now\<close> for \<^verbatim>\<open>time.Now()\<close>, and \<open>write_ok\<close> for the success
  of \<^verbatim>\<open>q.db.Write\<close>.  The result is the returned pair of id and error (\<open>None\<close> for nil) and
  the queue after the call.
\<close>

definition add_dependant :: "uuid \<Rightarrow> uuid \<Rightarrow> (uuid \<rightharpoonup> uuid list) \<Rightarrow> (uuid \<rightharpoonup> uuid list)" where
  "add_dependant jid uid deps =
     deps(uid \<mapsto> (case deps uid of None \<Rightarrow> [] | Some l \<Rightarrow> l) @ [jid])"

definition Enqueue ::
    "((uuid \<Rightarrow> uuid \<Rightarrow> bool) \<Rightarrow> uuid list \<Rightarrow> uuid list) \<Rightarrow> uuid list \<Rightarrow> ('a \<Rightarrow> json option) \<Rightarrow>
     uuid \<Rightarrow> time \<Rightarrow> bool \<Rightarrow> string \<Rightarrow> 'a \<Rightarrow> uuid list \<Rightarrow> fsJobQueue \<Rightarrow>
     (uuid \<times> queue_error option) outcome \<times> fsJobQueue" where
  "Enqueue srt ord marshal new_id now write_ok jobType args dependencies q =
     (let j = \<lparr>job_Id = new_id, job_Type = jobType, Args = [],
               Dependencies = uniqueUUIDList srt ord dependencies, Result = [],
               job_Status = JobPending, QueuedAt = now, StartedAt = 0, FinishedAt = 0\<rparr>
      in case marshal args of
           None \<Rightarrow> (Returns (uuid_Nil, Some (QueueError ''error marshaling job arguments'')), q)
         | Some a \<Rightarrow>
            (case countFinishedJobs q (Dependencies j) of
               Inl err \<Rightarrow> (Returns (uuid_Nil, Some err), q)
             | Inr finished \<Rightarrow>
                 if \<not> write_ok then (Returns (uuid_Nil, Some (QueueError ''cannot write job'')), q)
                 else
                   let q1 = q\<lparr>db := (db q)(new_id \<mapsto> Document (j\<lparr>Args := a\<rparr>))\<rparr> in
                   if finished = length (Dependencies j) then
                     (case send jobType new_id q1 of
                        None \<Rightarrow> (Blocks, pendingChannel jobType q1)
                      | Some q2 \<Rightarrow> (Returns (new_id, None), q2))
                   else
                     (Returns (new_id, None),
                      q1\<lparr>dependants := fold (add_dependant new_id) (Dependencies j) (dependants q1)\<rparr>)))"

subsection \<open>Dequeue\<close>

text \<open>
  \<open>ctx_err\<close> is \<^verbatim>\<open>ctx.Err()\<close> on entry and \<open>cancelled\<close> the error of a context that is
  cancelled while the call waits; \<open>chosen\<close> is the choice that \<^verbatim>\<open>reflect.Select\<close> makes
  among the cases that are ready; \<open>unmarshal\<close> is \<^verbatim>\<open>json.Unmarshal\<close> into the argument
  \<^verbatim>\<open>args\<close> (\<open>None\<close> when it fails).  The result is the returned id and error, the value
  left in \<^verbatim>\<open>args\<close>, and the queue after the call.
\<close>

definition receive :: "string \<Rightarrow> fsJobQueue \<Rightarrow> fsJobQueue" where
  "receive jobType q = q\<lparr>pending := (pending q)(jobType \<mapsto> tl (channel q jobType))\<rparr>"

definition Dequeue ::
    "(json \<Rightarrow> 'b option) \<Rightarrow> string option \<Rightarrow> string option \<Rightarrow> nat \<Rightarrow> time \<Rightarrow> bool \<Rightarrow>
     string list \<Rightarrow> fsJobQueue \<Rightarrow>
     (uuid \<times> queue_error option \<times> 'b option) outcome \<times> fsJobQueue" where
  "Dequeue unmarshal ctx_err cancelled chosen now write_ok jobTypes q =
     (case ctx_err of
        Some e \<Rightarrow> (Returns (uuid_Nil, Some (ContextError e), None), q)
      | None \<Rightarrow>
          let q1 = fold pendingChannel jobTypes q;
              ready = (case cancelled of None \<Rightarrow> [] | Some e \<Rightarrow> [Inl e]) @
                      map Inr (filter (\<lambda>jt. channel q1 jt \<noteq> []) jobTypes)
          in if ready = [] then (Blocks, q1)
             else
               (case ready ! (chosen mod length ready) of
                  Inl e \<Rightarrow> (Returns (uuid_Nil, Some (ContextError e), None), q1)
                | Inr jt \<Rightarrow>
                    let uid = hd (channel q1 jt); q2 = receive jt q1 in
                    (case readJob q2 uid of
                       Inl err \<Rightarrow> (Returns (uuid_Nil, Some err, None), q2)
                     | Inr j \<Rightarrow>
                         (case unmarshal (Args j) of
                            None \<Rightarrow>
                              (Returns (uuid_Nil,
                                 Some (QueueError ''error unmarshaling arguments for job''), None), q2)
                          | Some out \<Rightarrow>
                              if \<not> write_ok then
                                (Returns (uuid_Nil, Some (QueueError ''error writing job''), Some out), q2)
                              else
                                (Returns (job_Id j, None, Some out),
                                 q2\<lparr>db := (db q2)(uid \<mapsto>
                                        Document (j\<lparr>job_Status := JobRunning, StartedAt := now\<rparr>))\<rparr>)))))"

subsection \<open>FinishJob and JobStatus\<close>

text \<open>The loop of \<^verbatim>\<open>FinishJob\<close> over the dependants of the finished job.\<close>

fun notify_dependants :: "uuid list \<Rightarrow> fsJobQueue \<Rightarrow> (queue_error option) outcome \<times> fsJobQueue" where
  "notify_dependants [] q = (Returns None, q)"
| "notify_dependants (depid # rest) q =
     (case readJob q depid of
        Inl err \<Rightarrow> (Returns (Some err), q)
      | Inr dep \<Rightarrow>
          (case countFinishedJobs q (Dependencies dep) of
             Inl err \<Rightarrow> (Returns (Some err), q)
           | Inr n \<Rightarrow>
               if n = length (Dependencies dep) then
                 (case send (job_Type dep) (job_Id dep) q of
                    None \<Rightarrow> (Blocks, pendingChannel (job_Type dep) q)
                  | Some q' \<Rightarrow> notify_dependants rest q')
               else notify_dependants rest q))"

definition FinishJob ::
    "('r \<Rightarrow> json option) \<Rightarrow> time \<Rightarrow> bool \<Rightarrow> uuid \<Rightarrow> 'r \<Rightarrow> fsJobQueue \<Rightarrow>
     (queue_error option) outcome \<times> fsJobQueue" where
  "FinishJob marshal now write_ok uid result q =
     (case readJob q uid of
        Inl err \<Rightarrow> (Returns (Some err), q)
      | Inr j \<Rightarrow>
          if job_Status j \<noteq> JobRunning then (Returns (Some ErrNotRunning), q)
          else
            (case marshal result of
               None \<Rightarrow> (Returns (Some (QueueError ''error marshaling result'')), q)
             | Some r \<Rightarrow>
                 if \<not> write_ok then (Returns (Some (QueueError ''error writing job'')), q)
                 else
                   let q1 = q\<lparr>db := (db q)(uid \<mapsto>
                              Document (j\<lparr>job_Status := JobFinished, FinishedAt := now,
                                          Result := r\<rparr>))\<rparr>
                   in (case notify_dependants
                              (case dependants q1 uid of None \<Rightarrow> [] | Some l \<Rightarrow> l) q1 of
                         (Returns None, q2) \<Rightarrow>
                           (Returns None, q2\<lparr>dependants := (dependants q2)(uid := None)\<rparr>)
                       | other \<Rightarrow> other)))"

text \<open>
  \<^verbatim>\<open>JobStatus\<close> of the queue returns the status and the three times, or an error; the
  second component is what it unmarshals into \<^verbatim>\<open>result\<close>, \<open>None\<close> when it leaves
  \<^verbatim>\<open>result\<close> as the caller passed it.
\<close>

definition JobStatus ::
    "(json \<Rightarrow> 'r option) \<Rightarrow> uuid \<Rightarrow> fsJobQueue \<Rightarrow>
     queue_error + (JobStatus \<times> 'r option \<times> time \<times> time \<times> time)" where
  "JobStatus unmarshal uid q =
     (case readJob q uid of
        Inl err \<Rightarrow> Inl err
      | Inr j \<Rightarrow>
          if job_Status j = JobFinished then
            (case unmarshal (Result j) of
               None \<Rightarrow> Inl (QueueError ''error unmarshaling result for job'')
             | Some r \<Rightarrow> Inr (job_Status j, Some r, QueuedAt j, StartedAt j, FinishedAt j))
          else Inr (job_Status j, None, QueuedAt j, StartedAt j, FinishedAt j))"

section \<open>internal/worker\<close>

text \<open>
  Modelled from the spec: \<^verbatim>\<open>common.ComposeResult\<close> is not part of the sources at hand; it
  is the result of a build and says whether the build succeeded.
  \<^verbatim>\<open>OSBuildJobResult\<close> holds a pointer to it, \<open>None\<close> for nil.
\<close>

record ComposeResult =
  Success :: bool

record OSBuildJobResult =
  OSBuildOutput :: "ComposeResult option"

text \<open>
  \<^verbatim>\<open>composeStateFromJobStatus\<close>; \<^verbatim>\<open>output.Success\<close> dereferences the pointer.  The
  statement after the \<^verbatim>\<open>switch\<close> is reached by no job status.
\<close>

definition composeStateFromJobStatus :: "JobStatus \<Rightarrow> ComposeResult option \<Rightarrow> panic + ComposeState" where
  "composeStateFromJobStatus status output =
     (case status of
        JobPending \<Rightarrow> Inr CWaiting
      | JobRunning \<Rightarrow> Inr CRunning
      | JobFinished \<Rightarrow>
          (case output of
             None \<Rightarrow> Inl NilPointerDereference
           | Some r \<Rightarrow> if Success r then Inr CFinished else Inr CFailed))"

text \<open>
  \<^verbatim>\<open>Server.JobStatus\<close> starts from \<^verbatim>\<open>var result OSBuildJobResult\<close>, whose pointer is nil.
\<close>

definition Server_JobStatus ::
    "(json \<Rightarrow> OSBuildJobResult option) \<Rightarrow> uuid \<Rightarrow> fsJobQueue \<Rightarrow>
     panic + (queue_error + (ComposeState \<times> time \<times> time \<times> time))" where
  "Server_JobStatus unmarshal uid q =
     (case JobStatus unmarshal uid q of
        Inl err \<Rightarrow> Inr (Inl err)
      | Inr (status, unmarshalled, queued, started, finished) \<Rightarrow>
          let result = (case unmarshalled of None \<Rightarrow> \<lparr>OSBuildOutput = None\<rparr> | Some r \<Rightarrow> r) in
          (case composeStateFromJobStatus status (OSBuildOutput result) of
             Inl p \<Rightarrow> Inl p
           | Inr state \<Rightarrow> Inr (Inr (state, queued, started, finished))))"

section \<open>Notions of the specification and example states\<close>

text \<open>A compose with one running image build that has one local target.\<close>

definition example_target :: Target where
  "example_target = \<lparr>Status = IBWaiting, Options = LocalTargetOptions ''disk.img''\<rparr>"

definition example_build :: ImageBuild where
  "example_build =
     \<lparr>ib_Id = 0, ImageType = 0, Manifest = None, Targets = [Some example_target],
      JobCreated = 10, JobStarted = 20, JobFinished = 0, Size = 0,
      JobId = replicate 16 0, QueueStatus = IBRunning\<rparr>"

definition example_compose :: Compose where
  "example_compose = \<lparr>compose_Blueprint = None, ImageBuilds = [example_build]\<rparr>"

text \<open>A store that holds one compose whose only image build is still waiting.\<close>

definition example_composeID :: uuid where
  "example_composeID = [0, 0, 0, 0, 0, 0, 0, 0, 0, 0, 0, 0, 0, 0, 0, 1]"

definition waiting_build :: ImageBuild where
  "waiting_build = example_build\<lparr>QueueStatus := IBWaiting\<rparr>"

definition waiting_compose :: Compose where
  "waiting_compose = \<lparr>compose_Blueprint = None, ImageBuilds = [waiting_build]\<rparr>"

definition empty_store :: Store where
  "empty_store =
     \<lparr>Blueprints = Map.empty, Workspace = Map.empty, Composes = [], Sources = Map.empty,
      BlueprintsChanges = [], BlueprintsCommits = Map.empty, stateDir = None\<rparr>"

definition waiting_store :: Store where
  "waiting_store = empty_store\<lparr>Composes := [(example_composeID, waiting_compose)]\<rparr>"

definition running_store :: Store where
  "running_store = empty_store\<lparr>Composes := [(example_composeID, example_compose)]\<rparr>"

text \<open>
  The revisions recorded along a commit list, oldest first, and the most recent recorded
  revision that is positive (0 when there is none).
\<close>

definition recorded_revisions :: "change_map \<Rightarrow> string list \<Rightarrow> int list" where
  "recorded_revisions m commits = List.map_filter (\<lambda>c. Revision (lookup_change m c)) commits"

definition latest_positive_revision :: "change_map \<Rightarrow> string list \<Rightarrow> int" where
  "latest_positive_revision m commits =
     (case filter (\<lambda>r. 0 < r) (rev (recorded_revisions m commits)) of [] \<Rightarrow> 0 | r # rs \<Rightarrow> r)"

text \<open>
  A store with the blueprint \<open>bp\<close> and three commits, the first tagged 5, the second
  tagged 2, the third not tagged.
\<close>

definition example_bp :: Blueprint where
  "example_bp = \<lparr>bp_Name = ''bp'', bp_Version = ''0.0.1'', bp_Body = []\<rparr>"

definition example_change :: "string \<Rightarrow> string \<Rightarrow> string \<Rightarrow> int option \<Rightarrow> Change" where
  "example_change commit ts version revision =
     \<lparr>Commit = commit, Message = ''message'', Timestamp = ts,
      change_Blueprint = example_bp\<lparr>bp_Version := version\<rparr>, Revision = revision\<rparr>"

definition tagged_changes :: "(string \<times> Change) list" where
  "tagged_changes =
     [(''c1'', example_change ''c1'' ''2020-04-01T10:00:00Z'' ''0.0.1'' (Some 5)),
      (''c2'', example_change ''c2'' ''2020-04-01T10:00:01Z'' ''0.0.2'' (Some 2)),
      (''c3'', example_change ''c3'' ''2020-04-01T10:00:02Z'' ''0.0.3'' None)]"

definition tagged_store :: Store where
  "tagged_store =
     empty_store\<lparr>Blueprints := [''bp'' \<mapsto> example_bp],
                 Workspace := [''bp'' \<mapsto> example_bp],
                 BlueprintsChanges := [(''bp'', Some tagged_changes)],
                 BlueprintsCommits := [''bp'' \<mapsto> [''c1'', ''c2'', ''c3'']]\<rparr>"

text \<open>
  The stores that two pushes of the blueprint \<open>bp\<close> and a tag produce from the empty
  store, as the code computes them; \<open>no_bump\<close> stands in for \<^verbatim>\<open>BumpVersion\<close>, which these
  pushes do not reach, since the second push carries a new version.
\<close>

definition no_bump :: "Blueprint \<Rightarrow> string \<Rightarrow> Blueprint" where
  "no_bump bp old = bp"

definition pushed_once :: Store where
  "pushed_once =
     empty_store\<lparr>Blueprints := [''bp'' \<mapsto> example_bp],
                 BlueprintsChanges :=
                   [(''bp'', Some [(''c1'', example_change ''c1'' ''2020-04-01T10:00:00Z'' ''0.0.1'' None)])],
                 BlueprintsCommits := [''bp'' \<mapsto> [''c1'']]\<rparr>"

definition pushed_twice :: Store where
  "pushed_twice =
     empty_store\<lparr>Blueprints := [''bp'' \<mapsto> example_bp\<lparr>bp_Version := ''0.0.2''\<rparr>],
                 BlueprintsChanges :=
                   [(''bp'', Some [(''c1'', example_change ''c1'' ''2020-04-01T10:00:00Z'' ''0.0.1'' None),
                                   (''c2'', example_change ''c2'' ''2020-04-01T10:00:07Z'' ''0.0.2'' None)])],
                 BlueprintsCommits := [''bp'' \<mapsto> [''c1'', ''c2'']]\<rparr>"

definition pushed_twice_tagged :: Store where
  "pushed_twice_tagged =
     pushed_twice\<lparr>BlueprintsChanges :=
       [(''bp'', Some [(''c1'', example_change ''c1'' ''2020-04-01T10:00:00Z'' ''0.0.1'' None),
                       (''c2'', example_change ''c1'' ''2020-04-01T10:00:00Z'' ''0.0.1'' (Some 1))])]\<rparr>"


text \<open>A compose without image builds, and a state document that holds it.\<close>

definition empty_compose :: Compose where
  "empty_compose = \<lparr>compose_Blueprint = None, ImageBuilds = []\<rparr>"

definition bad_doc :: StoreDoc where
  "bad_doc = zero_StoreDoc\<lparr>doc_composes := Some [(example_composeID, empty_compose)]\<rparr>"

definition good_doc :: StoreDoc where
  "good_doc = zero_StoreDoc\<lparr>doc_composes := Some [(example_composeID, waiting_compose)]\<rparr>"

text \<open>A stand-in for the version library: a version is a number.\<close>

definition example_NewVersion :: "string \<Rightarrow> nat option" where
  "example_NewVersion = map_of [(''0.0.0'', 0), (''0.0.1'', 1), (''0.0.2'', 2), (''0.0.3'', 3)]"

text \<open>
  The order that the specification of the reconstruction names, written from its words
  and not from the closure of the code.  A version string that does not parse compares as
  the string \<open>0.0.0\<close>; one version string is below another when what the first compares as
  parses to a version less than what the second compares as parses to; and a list is in
  the order of the specification when it ascends by timestamp and, among equal timestamps,
  the version of a later change is never below the version of an earlier one.
\<close>

definition compares_as :: "(string \<Rightarrow> 'v option) \<Rightarrow> string \<Rightarrow> string" where
  "compares_as NewVersion version = (if NewVersion version = None then ''0.0.0'' else version)"

definition version_below ::
    "(string \<Rightarrow> 'v option) \<Rightarrow> ('v \<Rightarrow> 'v \<Rightarrow> bool) \<Rightarrow> string \<Rightarrow> string \<Rightarrow> bool" where
  "version_below NewVersion LessThan a b =
     (case (NewVersion (compares_as NewVersion a), NewVersion (compares_as NewVersion b)) of
        (Some x, Some y) \<Rightarrow> LessThan x y
      | _ \<Rightarrow> False)"

definition timestamp_then_version ::
    "(string \<Rightarrow> 'v option) \<Rightarrow> ('v \<Rightarrow> 'v \<Rightarrow> bool) \<Rightarrow> Change \<Rightarrow> Change \<Rightarrow> bool" where
  "timestamp_then_version NewVersion LessThan earlier later \<longleftrightarrow>
     Timestamp earlier < Timestamp later \<or>
     (Timestamp earlier = Timestamp later \<and>
      \<not> version_below NewVersion LessThan
           (bp_Version (change_Blueprint later)) (bp_Version (change_Blueprint earlier)))"

text \<open>Every change of the map is stored under its own commit hash, and no key occurs twice.\<close>

definition keyed_by_commit :: "change_map \<Rightarrow> bool" where
  "keyed_by_commit m \<longleftrightarrow>
     (case m of None \<Rightarrow> True
      | Some al \<Rightarrow> distinct (map fst al) \<and> list_all (\<lambda>(k, c). Commit c = k) al)"

text \<open>
  A state document written before the commit lists existed: three changes of the blueprint
  \<open>bp\<close> made within the same second, one of them with a version that does not parse, and
  no commit list.
\<close>

definition legacy_changes :: "(string \<times> Change) list" where
  "legacy_changes =
     [(''c2'', example_change ''c2'' ''2020-04-01T10:00:00Z'' ''0.0.2'' None),
      (''c3'', example_change ''c3'' ''2020-04-01T10:00:00Z'' ''not a version'' None),
      (''c1'', example_change ''c1'' ''2020-04-01T10:00:00Z'' ''0.0.1'' None)]"

definition legacy_doc :: StoreDoc where
  "legacy_doc =
     zero_StoreDoc\<lparr>doc_blueprints := Some [''bp'' \<mapsto> example_bp],
                   doc_changes := Some [(''bp'', Some legacy_changes)]\<rparr>"

text \<open>
  Three job ids (version 4 UUIDs), an empty queue, and a stand-in for the JSON encoding
  of job arguments: an argument is a string, or a value that cannot be serialized.
\<close>

definition id_a :: uuid where
  "id_a = [1, 0, 0, 0, 0, 0, 64, 0, 128, 0, 0, 0, 0, 0, 0, 0]"

definition id_b :: uuid where
  "id_b = [0, 1, 0, 0, 0, 0, 64, 0, 128, 0, 0, 0, 0, 0, 0, 0]"

definition id_c :: uuid where
  "id_c = [0, 0, 1, 0, 0, 0, 64, 0, 128, 0, 0, 0, 0, 0, 0, 0]"

definition empty_queue :: fsJobQueue where
  "empty_queue = \<lparr>db = Map.empty, pending = Map.empty, dependants = Map.empty\<rparr>"

definition example_marshal :: "string option \<Rightarrow> json option" where
  "example_marshal x = (case x of None \<Rightarrow> None | Some s \<Rightarrow> Some (CHR ''\"'' # s @ ''\"''))"

definition example_unmarshal :: "json \<Rightarrow> string option option" where
  "example_unmarshal d =
     (if 2 \<le> length d \<and> hd d = CHR ''\"'' \<and> last d = CHR ''\"''
      then Some (Some (butlast (tl d))) else None)"

text \<open>
  What makes a value equal, under deep JSON equality, to the value decoded from its own
  encoding: the codec decodes every document that encodes a value back to that value.
\<close>

definition round_trips :: "('a \<Rightarrow> json option) \<Rightarrow> (json \<Rightarrow> 'a option) \<Rightarrow> bool" where
  "round_trips marshal unmarshal \<longleftrightarrow> (\<forall>x d. marshal x = Some d \<longrightarrow> unmarshal d = Some x)"

text \<open>The queue after two jobs of type \<open>test\<close> have been enqueued, \<open>id_a\<close> first.\<close>

definition queue_a :: fsJobQueue where
  "queue_a = snd (Enqueue insertionSort [] example_marshal id_a 1 True ''test'' (Some ''A'') [] empty_queue)"

definition queue_ab :: fsJobQueue where
  "queue_ab = snd (Enqueue insertionSort [] example_marshal id_b 2 True ''test'' (Some ''B'') [] queue_a)"

definition stored_dependencies :: "fsJobQueue \<Rightarrow> uuid \<Rightarrow> uuid list option" where
  "stored_dependencies q uid =
     (case db q uid of Some (Document j) \<Rightarrow> Some (Dependencies j) | _ \<Rightarrow> None)"

text \<open>
  A stand-in for the JSON encoding of \<^verbatim>\<open>OSBuildJobResult\<close>, whose only field is tagged
  \<^verbatim>\<open>json:"osbuild_output,omitempty"\<close>: a nil pointer is left out of the document, and a
  document without the key leaves the pointer nil.
\<close>

definition marshal_result :: "OSBuildJobResult \<Rightarrow> json option" where
  "marshal_result r =
     (case OSBuildOutput r of
        None \<Rightarrow> Some ''{}''
      | Some output \<Rightarrow>
          Some (if Success output then ''{\"osbuild_output\":{\"success\":true}}''
                else ''{\"osbuild_output\":{\"success\":false}}''))"

definition unmarshal_result :: "json \<Rightarrow> OSBuildJobResult option" where
  "unmarshal_result d =
     (if d = ''{}'' then Some \<lparr>OSBuildOutput = None\<rparr>
      else if d = ''{\"osbuild_output\":{\"success\":true}}''
        then Some \<lparr>OSBuildOutput = Some \<lparr>Success = True\<rparr>\<rparr>
      else if d = ''{\"osbuild_output\":{\"success\":false}}''
        then Some \<lparr>OSBuildOutput = Some \<lparr>Success = False\<rparr>\<rparr>
      else None)"

text \<open>
  The queue after the job \<open>id_a\<close> has been enqueued, dequeued by a worker, and finished
  with a result whose \<^verbatim>\<open>OSBuildOutput\<close> is nil, as \<^verbatim>\<open>updateJobHandler\<close> does for a request
  body without a result.
\<close>

definition queue_a_running :: fsJobQueue where
  "queue_a_running = snd (Dequeue example_unmarshal None None 0 5 True [''test''] queue_a)"

definition queue_a_finished :: fsJobQueue where
  "queue_a_finished =
     snd (FinishJob marshal_result 9 True id_a \<lparr>OSBuildOutput = None\<rparr> queue_a_running)"

section \<open>Properties of the image-build state machine\<close>

lemmas IB_defs = IBWaiting_def IBRunning_def IBFinished_def IBFailed_def
lemmas C_defs = CWaiting_def CRunning_def CFinished_def CFailed_def
lemmas example_compose_defs = example_compose_def example_build_def example_target_def

lemma set_targets_status_Some:
  "None \<notin> set ts \<Longrightarrow>
   set_targets_status n ts = Some (map (map_option (\<lambda>t. t\<lparr>Status := n\<rparr>)) ts)"
  by (induction n ts rule: set_targets_status.induct) auto

lemma set_targets_status_None:
  "None \<in> set ts \<Longrightarrow> set_targets_status n ts = None"
  by (induction n ts rule: set_targets_status.induct) (auto split: option.splits)

lemma index_set_image_build:
  "index (ImageBuilds c) i = Some ib \<Longrightarrow>
   index (ImageBuilds (set_image_build c i ib')) i = Some ib'"
  by (auto simp: index_def set_image_build_def split: if_splits)

text \<open>
  Claim C4.  Let \<open>i\<close> be the index of an image build \<open>ib\<close> of the compose whose target
  pointers are not nil.  \<open>UpdateState\<close> returns nil exactly when the build's current queue
  status and the requested state form one of the four transitions Waiting to Running,
  Running to Running, Running to Finished, Running to Failed.  Every other request
  (any request for Waiting among them, and any integer that is no state) returns a
  \<open>StateTransitionError\<close> and leaves the whole compose, so also the build's queue status,
  as it was.  A successful call stores the requested state as the queue status of the
  build, and when that state is Finished or Failed it also stores it as the status of
  every target of the build.
\<close>

theorem UpdateState_transitions:
  assumes valid: "index (ImageBuilds c) i = Some ib"
    and nonnil: "None \<notin> set (Targets ib)"
  shows "(succeeded (UpdateState c i n) \<longleftrightarrow> allowed_transition (QueueStatus ib) n) \<and>
         (\<not> allowed_transition (QueueStatus ib) n \<longrightarrow>
            (\<exists>msg. UpdateState c i n = Inr (Some (StateTransitionError msg), c))) \<and>
         (allowed_transition (QueueStatus ib) n \<longrightarrow>
            (\<exists>c' ib'. UpdateState c i n = Inr (None, c') \<and>
               index (ImageBuilds c') i = Some ib' \<and> QueueStatus ib' = n \<and>
               (n = IBFinished \<or> n = IBFailed \<longrightarrow>
                  Targets ib' = map (map_option (\<lambda>t. t\<lparr>Status := n\<rparr>)) (Targets ib))))"
  using valid set_targets_status_Some[OF nonnil, of n] index_set_image_build[OF valid]
  by (auto simp: UpdateState_def succeeded_def allowed_transition_def IB_defs)

theorem UpdateState_transitions_witness:
  "index (ImageBuilds example_compose) 0 = Some example_build \<and>
   None \<notin> set (Targets example_build) \<and>
   allowed_transition (QueueStatus example_build) IBFinished \<and>
   succeeded (UpdateState example_compose 0 IBFinished) \<and>
   \<not> allowed_transition (QueueStatus example_build) IBWaiting \<and>
   \<not> succeeded (UpdateState example_compose 0 IBWaiting)"
  using UpdateState_transitions[of example_compose 0 example_build IBFinished]
    UpdateState_transitions[of example_compose 0 example_build IBWaiting]
  by (simp add: example_compose_defs index_def allowed_transition_def IB_defs)

section \<open>Properties of the compose store\<close>

subsection \<open>Updating an image build\<close>

lemmas example_store_defs = example_composeID_def waiting_build_def waiting_compose_def
  empty_store_def waiting_store_def running_store_def

text \<open>
  Claim C1 reads the guard of \<open>UpdateImageBuildInCompose\<close> as "the build must be
  Waiting".  The code has the opposite guard: on a store whose compose has a waiting image
  build the call returns \<open>NotPendingError\<close> and changes nothing.
\<close>

theorem UpdateImageBuildInCompose_waiting_counterexample:
  "map_of (Composes waiting_store) example_composeID = Some waiting_compose \<and>
   index (ImageBuilds waiting_compose) 0 = Some waiting_build \<and>
   QueueStatus waiting_build = IBWaiting \<and>
   UpdateImageBuildInCompose True True 30 example_composeID 0 IBRunning False waiting_store =
     Inr (Some (NotPendingError ''compose has not been popped''), waiting_store)"
  by (simp add: example_store_defs example_compose_defs UpdateImageBuildInCompose_def
      change_def index_def IB_defs)

text \<open>
  Claim C1, amended.  Let the compose exist, let \<open>i\<close> be the index of one of its image
  builds, and let the write of the state document succeed (or no state directory be
  configured).  When the build is Waiting the call fails with \<open>NotPendingError\<close> and the
  store is unchanged.  When the build is not Waiting the call never fails with
  \<open>NotPendingError\<close>; and unless the result file cannot be created, the outcome is that of
  \<open>Compose.UpdateState\<close>: its panic, its \<open>StateTransitionError\<close> wrapped in an
  \<open>InvalidRequestError\<close> with the store unchanged, or success with the updated compose
  (stamped with the finishing time on a final state) stored under the compose id.
\<close>

theorem UpdateImageBuildInCompose_guard:
  assumes exists: "map_of (Composes s) composeID = Some c"
    and valid: "index (ImageBuilds c) i = Some ib"
    and persisted: "w \<or> stateDir s = None"
  shows "(QueueStatus ib = IBWaiting \<longrightarrow>
            UpdateImageBuildInCompose w cr now composeID i st hr s =
              Inr (Some (NotPendingError ''compose has not been popped''), s)) \<and>
         (QueueStatus ib \<noteq> IBWaiting \<longrightarrow>
            (\<forall>msg s'. UpdateImageBuildInCompose w cr now composeID i st hr s \<noteq>
                        Inr (Some (NotPendingError msg), s'))) \<and>
         (QueueStatus ib \<noteq> IBWaiting \<and> (stateDir s = None \<or> \<not> hr \<or> cr) \<longrightarrow>
            UpdateImageBuildInCompose w cr now composeID i st hr s =
              (case UpdateState c i st of
                 Inl p \<Rightarrow> Inl p
               | Inr (Some (StateTransitionError msg), c') \<Rightarrow>
                   Inr (Some (InvalidRequestError (''invalid state transition: '' @ msg)), s)
               | Inr (None, c') \<Rightarrow>
                   Inr (None, s\<lparr>Composes :=
                          AList.update composeID (stamp_JobFinished now i st c') (Composes s)\<rparr>)))"
  using exists valid persisted
  by (auto simp: UpdateImageBuildInCompose_def change_def
      split: sum.splits option.splits prod.splits StateTransitionError.splits)

theorem UpdateImageBuildInCompose_guard_witness:
  "map_of (Composes running_store) example_composeID = Some example_compose \<and>
   index (ImageBuilds example_compose) 0 = Some example_build \<and>
   (True \<or> stateDir running_store = None) \<and>
   QueueStatus example_build \<noteq> IBWaiting \<and>
   (stateDir running_store = None \<or> \<not> False \<or> True) \<and>
   succeeded (UpdateImageBuildInCompose True True 30 example_composeID 0 IBFinished False running_store)"
  using UpdateImageBuildInCompose_guard[of running_store example_composeID example_compose 0
      example_build True True 30 IBFinished False]
  by (simp add: example_store_defs example_compose_defs index_def IB_defs UpdateState_def
      set_image_build_def succeeded_def)

subsection \<open>Tagging a blueprint\<close>

lemmas tagged_store_defs = example_bp_def example_change_def tagged_changes_def tagged_store_def
  empty_store_def

lemma latest_revision_loop_fst:
  "fst (latest_revision_loop m cs 0 chg) =
     (case filter (\<lambda>r. 0 < r) (List.map_filter (\<lambda>c. Revision (lookup_change m c)) cs) of
        [] \<Rightarrow> 0 | r # rs \<Rightarrow> r)"
  by (induction cs arbitrary: chg) (auto simp: List.map_filter_simps Let_def split: option.splits)

lemma map_filter_rev: "List.map_filter f (rev xs) = rev (List.map_filter f xs)"
  by (simp add: List.map_filter_def rev_map rev_filter)

lemma latest_revision_loop_latest_positive:
  "fst (latest_revision_loop m (rev commits) 0 chg) = latest_positive_revision m commits"
  by (simp add: latest_revision_loop_fst latest_positive_revision_def recorded_revisions_def
      map_filter_rev)

lemma get_changes_update:
  "get_changes (s\<lparr>BlueprintsChanges := AList.update name v (BlueprintsChanges s)\<rparr>) n =
     (if n = name then v else get_changes s n)"
  by (simp add: get_changes_def update_conv')

lemma lookup_change_update:
  "lookup_change (Some (AList.update k v al)) c = (if c = k then v else lookup_change (Some al) c)"
  by (simp add: lookup_change_def update_conv')

text \<open>
  What \<open>TagBlueprint\<close> does to the revisions.  Let the blueprint \<open>name\<close> exist, have at
  least one commit and a change map, and let the write of the state document succeed (or
  no state directory be configured).  If the latest commit of the commit list already has
  a revision, \<open>TagBlueprint\<close> returns nil and leaves the store as it is.  Otherwise it
  returns nil and the change stored under the latest commit has the revision \<open>r + 1\<close> (in
  Go's 64-bit arithmetic), where \<open>r\<close> is the revision of the newest commit that has a
  positive revision and 0 when there is none; this is 1 when no commit has a revision.
  The changes stored under the other commits and names, the commit lists and the rest of
  the store stay as they are, and a second \<open>TagBlueprint\<close> returns nil and changes
  nothing.  About the other fields of the change stored under the latest commit this says
  nothing.
\<close>

lemma TagBlueprint_latest_revision:
  assumes bp: "Blueprints s name = Some bp"
    and commits: "get_commits s name \<noteq> []"
    and changes: "get_changes s name = Some al"
    and persisted: "w \<or> stateDir s = None"
  shows "(Revision (lookup_change (get_changes s name) (last (get_commits s name))) \<noteq> None \<longrightarrow>
            TagBlueprint w name s = Inr (None, s)) \<and>
         (Revision (lookup_change (get_changes s name) (last (get_commits s name))) = None \<longrightarrow>
            (\<exists>s'. TagBlueprint w name s = Inr (None, s') \<and>
               Revision (lookup_change (get_changes s' name) (last (get_commits s name))) =
                 Some (wrap64 (latest_positive_revision (get_changes s name) (get_commits s name) + 1)) \<and>
               (recorded_revisions (get_changes s name) (get_commits s name) = [] \<longrightarrow>
                  Revision (lookup_change (get_changes s' name) (last (get_commits s name))) = Some 1) \<and>
               (\<forall>c. c \<noteq> last (get_commits s name) \<longrightarrow>
                  lookup_change (get_changes s' name) c = lookup_change (get_changes s name) c) \<and>
               (\<forall>n. n \<noteq> name \<longrightarrow> get_changes s' n = get_changes s n) \<and>
               BlueprintsCommits s' = BlueprintsCommits s \<and>
               Blueprints s' = Blueprints s \<and> Workspace s' = Workspace s \<and>
               Composes s' = Composes s \<and> Sources s' = Sources s \<and>
               TagBlueprint w name s' = Inr (None, s')))"
proof (intro conjI impI)
  assume "Revision (lookup_change (get_changes s name) (last (get_commits s name))) \<noteq> None"
  then show "TagBlueprint w name s = Inr (None, s)"
    using bp commits persisted by (auto simp: TagBlueprint_def change_def)
next
  assume norev: "Revision (lookup_change (get_changes s name) (last (get_commits s name))) = None"
  define latest where "latest = last (get_commits s name)"
  define r where
    "r = wrap64 (latest_positive_revision (get_changes s name) (get_commits s name) + 1)"
  define chg where
    "chg = (snd (latest_revision_loop (get_changes s name) (rev (get_commits s name)) 0 zero_Change))
             \<lparr>Revision := Some r\<rparr>"
  define s' where
    "s' = s\<lparr>BlueprintsChanges :=
              AList.update name (Some (AList.update latest chg al)) (BlueprintsChanges s)\<rparr>"
  have tag: "TagBlueprint w name s = Inr (None, s')"
    using bp commits persisted norev changes
      latest_revision_loop_latest_positive[of "Some al" "get_commits s name" zero_Change]
    by (auto simp: TagBlueprint_def change_def Let_def case_prod_beta s'_def chg_def r_def
        latest_def)
  have ch': "get_changes s' name = Some (AList.update latest chg al)"
    by (simp add: s'_def get_changes_update)
  have co': "get_commits s' name = get_commits s name"
    by (simp add: s'_def get_commits_def)
  have rev': "Revision (lookup_change (get_changes s' name) latest) = Some r"
    by (simp add: ch' lookup_change_update chg_def)
  have none1: "recorded_revisions (get_changes s name) (get_commits s name) = [] \<longrightarrow>
      Revision (lookup_change (get_changes s' name) latest) = Some 1"
    by (simp add: rev' r_def latest_positive_revision_def wrap64_def)
  have again: "TagBlueprint w name s' = Inr (None, s')"
  proof -
    have "Blueprints s' name = Some bp" "stateDir s' = stateDir s"
      using bp by (simp_all add: s'_def)
    then show ?thesis
      using commits persisted rev' co' by (auto simp: TagBlueprint_def change_def latest_def)
  qed
  have others: "\<forall>c. c \<noteq> latest \<longrightarrow>
      lookup_change (get_changes s' name) c = lookup_change (get_changes s name) c"
    by (simp add: ch' changes lookup_change_update)
  have names: "\<forall>n. n \<noteq> name \<longrightarrow> get_changes s' n = get_changes s n"
    by (simp add: s'_def get_changes_update)
  have frame: "BlueprintsCommits s' = BlueprintsCommits s \<and>
               Blueprints s' = Blueprints s \<and> Workspace s' = Workspace s \<and>
               Composes s' = Composes s \<and> Sources s' = Sources s"
    by (simp add: s'_def)
  show "\<exists>s'. TagBlueprint w name s = Inr (None, s') \<and>
               Revision (lookup_change (get_changes s' name) (last (get_commits s name))) =
                 Some (wrap64 (latest_positive_revision (get_changes s name) (get_commits s name) + 1)) \<and>
               (recorded_revisions (get_changes s name) (get_commits s name) = [] \<longrightarrow>
                  Revision (lookup_change (get_changes s' name) (last (get_commits s name))) = Some 1) \<and>
               (\<forall>c. c \<noteq> last (get_commits s name) \<longrightarrow>
                  lookup_change (get_changes s' name) c = lookup_change (get_changes s name) c) \<and>
               (\<forall>n. n \<noteq> name \<longrightarrow> get_changes s' n = get_changes s n) \<and>
               BlueprintsCommits s' = BlueprintsCommits s \<and>
               Blueprints s' = Blueprints s \<and> Workspace s' = Workspace s \<and>
               Composes s' = Composes s \<and> Sources s' = Sources s \<and>
               TagBlueprint w name s' = Inr (None, s')"
    unfolding latest_def[symmetric] r_def[symmetric]
    using tag rev' none1 others names frame again by blast
qed

lemmas pushed_defs = pushed_once_def pushed_twice_def pushed_twice_tagged_def empty_store_def
  example_bp_def example_change_def

text \<open>
  Claim C2 on the store that two pushes of a blueprint leave.  The pushes record the
  changes \<open>c1\<close> and \<open>c2\<close>, neither with a revision.  \<open>TagBlueprint\<close> then returns nil, but
  what it stores under the latest commit \<open>c2\<close> is the change of the first commit with the
  revision 1: its loop ends with the variable \<^verbatim>\<open>change\<close> holding the change of the oldest
  commit, and that variable is what is written back.  Afterwards the history of the
  blueprint lists the change \<open>c1\<close> twice, once without and once with the revision, and
  the change \<open>c2\<close> (its commit hash, timestamp and blueprint version 0.0.2) is gone: it is
  not the latest commit that has been given the revision.
\<close>

theorem TagBlueprint_replaces_latest_change:
  "PushBlueprint Some no_bump True (Some ''c1'') ''2020-04-01T10:00:00Z'' example_bp ''message''
     empty_store = Inr (None, pushed_once) \<and>
   PushBlueprint Some no_bump True (Some ''c2'') ''2020-04-01T10:00:07Z''
     (example_bp\<lparr>bp_Version := ''0.0.2''\<rparr>) ''message'' pushed_once = Inr (None, pushed_twice) \<and>
   GetBlueprintChanges pushed_twice ''bp'' =
     [example_change ''c1'' ''2020-04-01T10:00:00Z'' ''0.0.1'' None,
      example_change ''c2'' ''2020-04-01T10:00:07Z'' ''0.0.2'' None] \<and>
   TagBlueprint True ''bp'' pushed_twice = Inr (None, pushed_twice_tagged) \<and>
   GetBlueprintChanges pushed_twice_tagged ''bp'' =
     [example_change ''c1'' ''2020-04-01T10:00:00Z'' ''0.0.1'' None,
      example_change ''c1'' ''2020-04-01T10:00:00Z'' ''0.0.1'' (Some 1)] \<and>
   GetBlueprintChange pushed_twice_tagged ''bp'' ''c2'' =
     Inr (example_change ''c1'' ''2020-04-01T10:00:00Z'' ''0.0.1'' (Some 1))"
proof -
  have push1: "PushBlueprint Some no_bump True (Some ''c1'') ''2020-04-01T10:00:00Z'' example_bp
      ''message'' empty_store = Inr (None, pushed_once)"
    by (simp add: PushBlueprint_def change_def pushed_defs get_changes_def get_commits_def Let_def)
  have push2: "PushBlueprint Some no_bump True (Some ''c2'') ''2020-04-01T10:00:07Z''
      (example_bp\<lparr>bp_Version := ''0.0.2''\<rparr>) ''message'' pushed_once = Inr (None, pushed_twice)"
    by (simp add: PushBlueprint_def change_def pushed_defs get_changes_def get_commits_def Let_def)
  have before: "GetBlueprintChanges pushed_twice ''bp'' =
     [example_change ''c1'' ''2020-04-01T10:00:00Z'' ''0.0.1'' None,
      example_change ''c2'' ''2020-04-01T10:00:07Z'' ''0.0.2'' None]"
    by (simp add: GetBlueprintChanges_def pushed_defs get_changes_def get_commits_def
        lookup_change_def)
  have tag: "TagBlueprint True ''bp'' pushed_twice = Inr (None, pushed_twice_tagged)"
    by (simp add: TagBlueprint_def change_def pushed_defs get_changes_def get_commits_def
        lookup_change_def zero_Change_def zero_Blueprint_def wrap64_def Let_def)
  have after: "GetBlueprintChanges pushed_twice_tagged ''bp'' =
     [example_change ''c1'' ''2020-04-01T10:00:00Z'' ''0.0.1'' None,
      example_change ''c1'' ''2020-04-01T10:00:00Z'' ''0.0.1'' (Some 1)]"
    by (simp add: GetBlueprintChanges_def pushed_defs get_changes_def get_commits_def
        lookup_change_def)
  have point: "GetBlueprintChange pushed_twice_tagged ''bp'' ''c2'' =
     Inr (example_change ''c1'' ''2020-04-01T10:00:00Z'' ''0.0.1'' (Some 1))"
    by (simp add: GetBlueprintChange_def pushed_defs)
  show ?thesis
    using push1 push2 before tag after point by simp
qed

text \<open>The revision that the tag assigns there is the one the lemma above gives: 1.\<close>

lemma TagBlueprint_latest_revision_example:
  "Blueprints pushed_twice ''bp'' = Some (example_bp\<lparr>bp_Version := ''0.0.2''\<rparr>) \<and>
   get_commits pushed_twice ''bp'' = [''c1'', ''c2''] \<and>
   recorded_revisions (get_changes pushed_twice ''bp'') (get_commits pushed_twice ''bp'') = [] \<and>
   (\<exists>s'. TagBlueprint True ''bp'' pushed_twice = Inr (None, s') \<and>
      Revision (lookup_change (get_changes s' ''bp'') ''c2'') = Some 1 \<and>
      TagBlueprint True ''bp'' s' = Inr (None, s'))"
proof -
  have a: "Blueprints pushed_twice ''bp'' = Some (example_bp\<lparr>bp_Version := ''0.0.2''\<rparr>)"
    by (simp add: pushed_defs)
  have b: "get_commits pushed_twice ''bp'' = [''c1'', ''c2'']"
    by (simp add: pushed_defs get_commits_def)
  have c: "get_changes pushed_twice ''bp'' =
      Some [(''c1'', example_change ''c1'' ''2020-04-01T10:00:00Z'' ''0.0.1'' None),
            (''c2'', example_change ''c2'' ''2020-04-01T10:00:07Z'' ''0.0.2'' None)]"
    by (simp add: pushed_defs get_changes_def)
  have d: "recorded_revisions (get_changes pushed_twice ''bp'') [''c1'', ''c2''] = []"
    by (simp add: c recorded_revisions_def List.map_filter_simps lookup_change_def
        example_change_def)
  have e: "Revision (lookup_change (get_changes pushed_twice ''bp'') ''c2'') = None"
    by (simp add: c lookup_change_def example_change_def)
  from TagBlueprint_latest_revision[OF a _ c, of True] b d e
  show ?thesis using a by auto
qed

subsection \<open>Loading the composes\<close>

lemma fail_unfinished_composes_empty_entry:
  "(composeID, c) \<in> set cs \<Longrightarrow> ImageBuilds c = [] \<Longrightarrow>
   fail_unfinished_composes cs =
     Inl (PanicMsg ''the was a compose with zero image builds, that is forbidden'')"
  by (induction cs rule: fail_unfinished_composes.induct) auto

lemma fail_unfinished_composes_empty:
  "\<exists>entry \<in> set cs. ImageBuilds (snd entry) = [] \<Longrightarrow>
   fail_unfinished_composes cs =
     Inl (PanicMsg ''the was a compose with zero image builds, that is forbidden'')"
  using fail_unfinished_composes_empty_entry by fastforce

lemma fail_unfinished_composes_result:
  "fail_unfinished_composes cs = Inr cs' \<Longrightarrow>
   cs' = map (\<lambda>(composeID, c). (composeID, c\<lparr>ImageBuilds := map fail_unfinished (ImageBuilds c)\<rparr>)) cs"
  by (induction cs arbitrary: cs' rule: fail_unfinished_composes.induct)
     (auto split: if_splits sum.splits)

lemma fail_unfinished_composes_nonempty:
  assumes "fail_unfinished_composes cs = Inr cs'"
  shows "(\<forall>entry \<in> set cs'. ImageBuilds (snd entry) \<noteq> []) \<and>
   (\<forall>entry \<in> set cs. ImageBuilds (snd entry) \<noteq> []) \<and>
   map fst cs' = map fst cs"
proof -
  have 1: "\<forall>entry \<in> set cs. ImageBuilds (snd entry) \<noteq> []"
    using assms fail_unfinished_composes_empty[of cs] by auto
  have 2: "cs' = map (\<lambda>(composeID, c). (composeID, c\<lparr>ImageBuilds := map fail_unfinished (ImageBuilds c)\<rparr>)) cs"
    using assms by (rule fail_unfinished_composes_result)
  have 3: "map fst cs' = map fst cs"
    unfolding 2 by (induction cs) auto
  have 4: "\<forall>entry \<in> set cs'. ImageBuilds (snd entry) \<noteq> []"
    unfolding 2 using 1 by auto
  show ?thesis using 1 3 4 by blast
qed

lemma Composes_rebuild_commits: "Composes (rebuild_commits lt srt name s) = Composes s"
  by (simp add: rebuild_commits_def)

lemma Composes_fold_rebuild_commits:
  "Composes (fold (rebuild_commits lt srt) names s) = Composes s"
  by (induction names arbitrary: s) (simp_all add: Composes_rebuild_commits)

text \<open>
  Claim C9.  When the state document is read and holds a compose without image builds,
  \<open>New\<close> panics; hence in every store that \<open>New\<close> returns, every compose has at least one
  image build, and so had every compose of the document it was loaded from.
\<close>

theorem New_panics_on_empty_compose:
  "(mkdir_ok \<and> doc_composes doc = Some cs \<and> (\<exists>entry \<in> set cs. ImageBuilds (snd entry) = []) \<longrightarrow>
      New srt NewVersion LessThan v000 (Some dir) mkdir_ok (Present doc) =
        Inl (PanicMsg ''the was a compose with zero image builds, that is forbidden'')) \<and>
   (New srt NewVersion LessThan v000 sdir mkdir_ok file = Inr s \<longrightarrow>
      (\<forall>entry \<in> set (Composes s). ImageBuilds (snd entry) \<noteq> []) \<and>
      (\<forall>d p cs. sdir = Some d \<and> file = Present p \<and> doc_composes p = Some cs \<longrightarrow>
         (\<forall>entry \<in> set cs. ImageBuilds (snd entry) \<noteq> []) \<and>
         map fst (Composes s) = map fst cs))"
proof (intro conjI impI)
  assume "mkdir_ok \<and> doc_composes doc = Some cs \<and> (\<exists>entry \<in> set cs. ImageBuilds (snd entry) = [])"
  then show "New srt NewVersion LessThan v000 (Some dir) mkdir_ok (Present doc) =
        Inl (PanicMsg ''the was a compose with zero image builds, that is forbidden'')"
    using fail_unfinished_composes_empty[of cs] by (simp add: New_def)
next
  assume new: "New srt NewVersion LessThan v000 sdir mkdir_ok file = Inr s"
  define doc where "doc = (case (sdir, file) of (Some d, Present p) \<Rightarrow> p | _ \<Rightarrow> zero_StoreDoc)"
  define loaded where
    "loaded = (case doc_composes doc of None \<Rightarrow> Inr [] | Some cs \<Rightarrow> fail_unfinished_composes cs)"
  from new obtain composes where l: "loaded = Inr composes" and c: "Composes s = composes"
    by (auto simp: New_def Let_def loaded_def doc_def Composes_fold_rebuild_commits
        split: if_splits sum.splits)
  show "\<forall>entry \<in> set (Composes s). ImageBuilds (snd entry) \<noteq> []"
    using l c fail_unfinished_composes_nonempty[of _ composes]
    by (auto simp: loaded_def split: option.splits)
  show "\<forall>d p cs. sdir = Some d \<and> file = Present p \<and> doc_composes p = Some cs \<longrightarrow>
         (\<forall>entry \<in> set cs. ImageBuilds (snd entry) \<noteq> []) \<and>
         map fst (Composes s) = map fst cs"
  proof (intro allI impI)
    fix d p cs
    assume h: "sdir = Some d \<and> file = Present p \<and> doc_composes p = Some cs"
    then have "fail_unfinished_composes cs = Inr (Composes s)"
      using l c by (simp add: loaded_def doc_def)
    then show "(\<forall>entry \<in> set cs. ImageBuilds (snd entry) \<noteq> []) \<and>
         map fst (Composes s) = map fst cs"
      using fail_unfinished_composes_nonempty by blast
  qed
qed

theorem New_panics_on_empty_compose_witness:
  "doc_composes bad_doc = Some [(example_composeID, empty_compose)] \<and>
   ImageBuilds empty_compose = [] \<and>
   New insertionSort example_NewVersion (<) 0 (Some ''/var/lib/state'') True (Present bad_doc) =
     Inl (PanicMsg ''the was a compose with zero image builds, that is forbidden'') \<and>
   (\<exists>s. New insertionSort example_NewVersion (<) 0 (Some ''/var/lib/state'') True (Present good_doc) =
      Inr s \<and> map (\<lambda>entry. length (ImageBuilds (snd entry))) (Composes s) = [1])"
proof -
  have a: "doc_composes bad_doc = Some [(example_composeID, empty_compose)]"
    by (simp add: bad_doc_def zero_StoreDoc_def)
  have b: "ImageBuilds empty_compose = []" by (simp add: empty_compose_def)
  have c: "New insertionSort example_NewVersion (<) 0 (Some ''/var/lib/state'') True (Present bad_doc) =
     Inl (PanicMsg ''the was a compose with zero image builds, that is forbidden'')"
    using New_panics_on_empty_compose[of True bad_doc "[(example_composeID, empty_compose)]"
        insertionSort example_NewVersion "(<)" 0 "''/var/lib/state''"] a b
    by simp
  have d: "\<exists>s. New insertionSort example_NewVersion (<) 0 (Some ''/var/lib/state'') True (Present good_doc) =
      Inr s \<and> map (\<lambda>entry. length (ImageBuilds (snd entry))) (Composes s) = [1]"
    by (simp add: New_def good_doc_def zero_StoreDoc_def waiting_compose_def Let_def)
  show ?thesis using a b c d by blast
qed

subsection \<open>Deleting a blueprint\<close>

text \<open>
  Claim C10.  A successful \<open>DeleteBlueprint name\<close> removes the entry of \<open>name\<close> from the
  committed blueprints and from the workspace and changes nothing else: the changes map
  and the commit lists are those of before, so \<open>GetBlueprintChange\<close> and
  \<open>GetBlueprintChanges\<close> answer every query, also for \<open>name\<close>, as they did before.
\<close>

theorem DeleteBlueprint_keeps_history:
  assumes "DeleteBlueprint w name s = Inr (None, s')"
  shows "Blueprints s' = (Blueprints s)(name := None) \<and>
         Workspace s' = (Workspace s)(name := None) \<and>
         BlueprintsChanges s' = BlueprintsChanges s \<and>
         BlueprintsCommits s' = BlueprintsCommits s \<and>
         Composes s' = Composes s \<and> Sources s' = Sources s \<and> stateDir s' = stateDir s \<and>
         (\<forall>n. GetBlueprintChanges s' n = GetBlueprintChanges s n) \<and>
         (\<forall>n c. GetBlueprintChange s' n c = GetBlueprintChange s n c)"
  using assms
  by (auto simp: DeleteBlueprint_def change_def Let_def GetBlueprintChanges_def
      GetBlueprintChange_def get_changes_def get_commits_def
      split: option.splits if_splits)

theorem DeleteBlueprint_keeps_history_witness:
  "(\<exists>s'. DeleteBlueprint True ''bp'' tagged_store = Inr (None, s') \<and>
      Blueprints s' ''bp'' = None \<and> Workspace s' ''bp'' = None \<and>
      map Commit (GetBlueprintChanges s' ''bp'') = [''c1'', ''c2'', ''c3''] \<and>
      map_sum id Commit (GetBlueprintChange s' ''bp'' ''c2'') = Inr ''c2'')"
proof -
  obtain s' where d: "DeleteBlueprint True ''bp'' tagged_store = Inr (None, s')"
    by (simp add: DeleteBlueprint_def change_def tagged_store_defs)
  have e: "map Commit (GetBlueprintChanges tagged_store ''bp'') = [''c1'', ''c2'', ''c3'']"
    by (simp add: GetBlueprintChanges_def tagged_store_defs get_changes_def get_commits_def
        lookup_change_def)
  have f: "map_sum id Commit (GetBlueprintChange tagged_store ''bp'' ''c2'') = Inr ''c2''"
    by (simp add: GetBlueprintChange_def tagged_store_defs)
  from DeleteBlueprint_keeps_history[OF d] e f d show ?thesis
    by (auto simp: tagged_store_defs)
qed

subsection \<open>Reconstruction of the commit lists\<close>

lemma strict_weak_order_asym: "strict_weak_order lt \<Longrightarrow> lt a b \<Longrightarrow> \<not> lt b a"
  unfolding strict_weak_order_def by blast

lemma mset_sift: "mset (sift lt x ys) = add_mset x (mset ys)"
  by (induction ys) auto

lemma set_sift: "set (sift lt x ys) = insert x (set ys)"
  by (induction ys) auto

lemma mset_fold_sift: "mset (fold (sift lt) xs acc) = mset xs + mset acc"
  by (induction xs arbitrary: acc) (auto simp: mset_sift)

lemma sorted_sift:
  assumes "strict_weak_order lt" and "sorted_wrt (\<lambda>a b. \<not> lt a b) ys"
  shows "sorted_wrt (\<lambda>a b. \<not> lt a b) (sift lt x ys)"
  using assms(2)
proof (induction ys)
  case Nil
  then show ?case by simp
next
  case (Cons y ys)
  show ?case
  proof (cases "lt x y")
    case True
    then have "\<not> lt y x" using assms(1) strict_weak_order_asym by metis
    then show ?thesis using True Cons by (auto simp: set_sift)
  next
    case False
    have "\<forall>z \<in> set ys. \<not> lt x z"
      using False Cons.prems assms(1) unfolding strict_weak_order_def by (metis sorted_wrt.simps(2))
    then show ?thesis using False Cons.prems by auto
  qed
qed

lemma sorted_fold_sift:
  "strict_weak_order lt \<Longrightarrow> sorted_wrt (\<lambda>a b. \<not> lt a b) acc \<Longrightarrow>
   sorted_wrt (\<lambda>a b. \<not> lt a b) (fold (sift lt) xs acc)"
  by (induction xs arbitrary: acc) (auto simp: sorted_sift)

lemma sorts_insertionSort: "sorts insertionSort"
  unfolding sorts_def insertionSort_def
  by (auto simp: mset_fold_sift sorted_wrt_rev sorted_fold_sift)

lemma strict_weak_order_nat_less: "strict_weak_order ((<) :: nat \<Rightarrow> nat \<Rightarrow> bool)"
  unfolding strict_weak_order_def by auto

lemma strict_weak_order_change_less:
  assumes "strict_weak_order LessThan"
  shows "strict_weak_order (change_less NewVersion LessThan v000)"
proof -
  let ?v = "version_of NewVersion v000"
  have irr: "\<not> LessThan x x" for x
    using assms unfolding strict_weak_order_def by blast
  have tr: "LessThan x y \<Longrightarrow> LessThan y z \<Longrightarrow> LessThan x z" for x y z
    using assms unfolding strict_weak_order_def by blast
  have ntr: "\<not> LessThan x y \<Longrightarrow> \<not> LessThan y z \<Longrightarrow> \<not> LessThan x z" for x y z
    using assms unfolding strict_weak_order_def by blast
  have 1: "\<not> change_less NewVersion LessThan v000 a a" for a
    by (simp add: change_less_def irr)
  have 2: "change_less NewVersion LessThan v000 a c"
    if "change_less NewVersion LessThan v000 a b" "change_less NewVersion LessThan v000 b c"
    for a b c
  proof (cases "Timestamp a = Timestamp b")
    case True
    show ?thesis
    proof (cases "Timestamp b = Timestamp c")
      case eq: True
      then show ?thesis
        using that True tr[of "?v a" "?v b" "?v c"] by (auto simp: change_less_def)
    next
      case False
      then show ?thesis using that True by (auto simp: change_less_def)
    qed
  next
    case False
    then have ab: "Timestamp a < Timestamp b" using that(1) by (auto simp: change_less_def)
    show ?thesis
    proof (cases "Timestamp b = Timestamp c")
      case True
      then show ?thesis using ab False by (auto simp: change_less_def)
    next
      case bc: False
      then have "Timestamp b < Timestamp c" using that(2) by (auto simp: change_less_def)
      then have "Timestamp a < Timestamp c" using ab by (rule less_trans[rotated])
      then show ?thesis by (auto simp: change_less_def)
    qed
  qed
  have 3: "\<not> change_less NewVersion LessThan v000 a c"
    if "\<not> change_less NewVersion LessThan v000 a b" "\<not> change_less NewVersion LessThan v000 b c"
    for a b c
  proof (cases "Timestamp a = Timestamp b")
    case True
    show ?thesis
    proof (cases "Timestamp b = Timestamp c")
      case eq: True
      then show ?thesis
        using that True ntr[of "?v a" "?v b" "?v c"] by (auto simp: change_less_def)
    next
      case False
      then show ?thesis using that True by (auto simp: change_less_def)
    qed
  next
    case False
    then have ab: "Timestamp b < Timestamp a" using that(1) by (auto simp: change_less_def)
    show ?thesis
    proof (cases "Timestamp b = Timestamp c")
      case True
      then show ?thesis using ab False by (auto simp: change_less_def)
    next
      case bc: False
      then have "Timestamp c < Timestamp b" using that(2) by (auto simp: change_less_def)
      then have "Timestamp c < Timestamp a" using ab by (rule less_trans)
      then show ?thesis by (auto simp: change_less_def)
    qed
  qed
  show ?thesis
    unfolding strict_weak_order_def using 1 2 3 by blast
qed

lemma version_below_version_of:
  "NewVersion ''0.0.0'' = Some v000 \<Longrightarrow>
   version_below NewVersion LessThan (bp_Version (change_Blueprint a)) (bp_Version (change_Blueprint b)) =
     LessThan (version_of NewVersion v000 a) (version_of NewVersion v000 b)"
  by (auto simp: version_below_def compares_as_def version_of_def split: option.splits)

lemma not_change_less:
  "NewVersion ''0.0.0'' = Some v000 \<Longrightarrow>
   \<not> change_less NewVersion LessThan v000 b a \<longleftrightarrow> timestamp_then_version NewVersion LessThan a b"
  by (auto simp: change_less_def timestamp_then_version_def version_below_version_of)


lemma get_changes_rebuild_commits [simp]:
  "get_changes (rebuild_commits lt srt name s) n = get_changes s n"
  by (simp add: rebuild_commits_def get_changes_def)

lemma get_commits_rebuild_commits:
  "get_commits (rebuild_commits lt srt name s) n =
     (if n = name \<and> len_changes (get_changes s n) \<noteq> length (get_commits s n)
      then map Commit (srt lt (range_changes (get_changes s n)))
      else get_commits s n)"
  by (auto simp: rebuild_commits_def get_commits_def)

lemma get_changes_fold_rebuild_commits [simp]:
  "get_changes (fold (rebuild_commits lt srt) names s) n = get_changes s n"
  by (induction names arbitrary: s) simp_all

lemma get_commits_fold_rebuild_commits:
  "distinct names \<Longrightarrow>
   get_commits (fold (rebuild_commits lt srt) names s) n =
     (if n \<in> set names \<and> len_changes (get_changes s n) \<noteq> length (get_commits s n)
      then map Commit (srt lt (range_changes (get_changes s n)))
      else get_commits s n)"
proof (induction names arbitrary: s)
  case Nil
  then show ?case by simp
next
  case (Cons a names)
  then show ?case
    by (auto simp: get_commits_rebuild_commits)
qed

lemma lookup_change_keyed:
  assumes "keyed_by_commit m" and "c \<in> set (range_changes m)"
  shows "lookup_change m (Commit c) = c"
proof (cases m)
  case None
  then show ?thesis using assms by (simp add: range_changes_def)
next
  case (Some al)
  then obtain k where k: "(k, c) \<in> set al"
    using assms(2) by (auto simp: range_changes_def)
  then have "Commit c = k"
    using assms(1) Some by (auto simp: keyed_by_commit_def list_all_iff)
  moreover have "map_of al k = Some c"
    using assms(1) Some k by (simp add: keyed_by_commit_def)
  ultimately show ?thesis using Some by (simp add: lookup_change_def)
qed

text \<open>
  What the reconstruction gives on every state document.  Let \<open>New\<close> load a state
  document and return the store \<open>s\<close>, and let \<open>name\<close> be a name of the document's changes
  map whose map of changes and commit list have different lengths.  Then the commit list
  of \<open>name\<close> in \<open>s\<close> lists the commit hashes recorded in a rearrangement of the changes of
  \<open>name\<close> that is in the order of the specification: ascending by timestamp and, among
  equal timestamps, by the version of the change's blueprint, a version that does not parse
  comparing as 0.0.0.  When each change is stored under its own commit hash,
  \<open>GetBlueprintChanges\<close> returns the changes in exactly that order.  The library enters
  through three facts: \<open>sort.Slice\<close> sorts what a transitive ordering compares, the
  comparison of versions is such an ordering, and \<^verbatim>\<open>semver.New("0.0.0")\<close> is what 0.0.0
  parses to.
\<close>

lemma New_rebuilds_commits:
  assumes srt: "sorts srt"
    and swo: "strict_weak_order LessThan"
    and zero: "NewVersion ''0.0.0'' = Some v000"
    and new: "New srt NewVersion LessThan v000 (Some dir) mkdir_ok (Present doc) = Inr s"
    and changes: "doc_changes doc = Some chs" "distinct (map fst chs)" "map_of chs name = Some m"
    and differ: "len_changes m \<noteq>
        length (case doc_commits doc of None \<Rightarrow> [] | Some cm \<Rightarrow> (case cm name of None \<Rightarrow> [] | Some cs \<Rightarrow> cs))"
  shows "\<exists>sorted.
           mset sorted = mset (range_changes m) \<and>
           sorted_wrt (timestamp_then_version NewVersion LessThan) sorted \<and>
           get_commits s name = map Commit sorted \<and>
           (keyed_by_commit m \<longrightarrow> GetBlueprintChanges s name = sorted)"
proof -
  define lt where "lt = change_less NewVersion LessThan v000"
  define s0 where
    "s0 = \<lparr>Blueprints = (case doc_blueprints doc of None \<Rightarrow> Map.empty | Some m \<Rightarrow> m),
           Workspace = (case doc_workspace doc of None \<Rightarrow> Map.empty | Some m \<Rightarrow> m),
           Composes = (case (case doc_composes doc of None \<Rightarrow> Inr [] | Some cs \<Rightarrow> fail_unfinished_composes cs) of Inr cs \<Rightarrow> cs | Inl p \<Rightarrow> []),
           Sources = (case doc_sources doc of None \<Rightarrow> Map.empty | Some m \<Rightarrow> m),
           BlueprintsChanges = chs,
           BlueprintsCommits = (case doc_commits doc of None \<Rightarrow> Map.empty | Some m \<Rightarrow> m),
           stateDir = Some dir\<rparr>"
  have s: "s = fold (rebuild_commits lt srt) (map fst chs) s0"
    using new changes(1)
    by (auto simp: New_def Let_def lt_def s0_def split: if_splits sum.splits)
  have ch0: "get_changes s0 name = m"
    using changes(3) by (simp add: get_changes_def s0_def)
  have co0: "get_commits s0 name =
      (case doc_commits doc of None \<Rightarrow> [] | Some cm \<Rightarrow> (case cm name of None \<Rightarrow> [] | Some cs \<Rightarrow> cs))"
    by (simp add: get_commits_def s0_def split: option.splits)
  have mem: "name \<in> set (map fst chs)"
    using changes(3) by (metis map_of_eq_None_iff option.distinct(1) set_map)
  define sorted where "sorted = srt lt (range_changes m)"
  have commits: "get_commits s name = map Commit sorted"
    unfolding s using get_commits_fold_rebuild_commits[OF changes(2), of lt srt s0 name]
      mem differ ch0 co0 by (simp add: sorted_def)
  have ch: "get_changes s name = m"
    unfolding s using ch0 by simp
  have swo': "strict_weak_order lt"
    unfolding lt_def using swo by (rule strict_weak_order_change_less)
  have perm: "mset sorted = mset (range_changes m)"
    and ord: "sorted_wrt (\<lambda>a b. \<not> lt b a) sorted"
    using srt swo' unfolding sorts_def sorted_def by blast+
  have ord': "sorted_wrt (timestamp_then_version NewVersion LessThan) sorted"
    using ord unfolding lt_def
      not_change_less[where NewVersion = NewVersion and ?v000.0 = v000, OF zero] .
  have get: "GetBlueprintChanges s name = sorted" if "keyed_by_commit m"
  proof -
    have "set sorted = set (range_changes m)"
      using perm by (metis set_mset_mset)
    then have "\<forall>c \<in> set sorted. lookup_change m (Commit c) = c"
      using lookup_change_keyed[OF that] by blast
    then show ?thesis
      by (simp add: GetBlueprintChanges_def ch commits map_idI comp_def)
  qed
  show ?thesis
    using perm ord' commits get by blast
qed

lemmas legacy_defs = legacy_changes_def legacy_doc_def example_change_def example_bp_def
  zero_StoreDoc_def example_NewVersion_def


text \<open>
  On the document without commit lists whose three changes share their timestamp, the
  change whose version does not parse comes first, as 0.0.0 does.
\<close>

lemma New_rebuilds_commits_example:
  "example_NewVersion ''not a version'' = None \<and>
   example_NewVersion ''0.0.0'' = Some 0 \<and>
   doc_changes legacy_doc = Some [(''bp'', Some legacy_changes)] \<and>
   len_changes (Some legacy_changes) = 3 \<and>
   doc_commits legacy_doc = None \<and>
   keyed_by_commit (Some legacy_changes) \<and>
   (\<exists>s. New insertionSort example_NewVersion (<) 0 (Some ''/var/lib/state'') True (Present legacy_doc) = Inr s \<and>
      get_commits s ''bp'' = [''c3'', ''c1'', ''c2''] \<and>
      map Commit (GetBlueprintChanges s ''bp'') = [''c3'', ''c1'', ''c2''] \<and>
      sorted_wrt (timestamp_then_version example_NewVersion (<)) (GetBlueprintChanges s ''bp''))"
proof -
  have z: "example_NewVersion ''not a version'' = None" "example_NewVersion ''0.0.0'' = Some 0"
    by (simp_all add: example_NewVersion_def)
  have a: "doc_changes legacy_doc = Some [(''bp'', Some legacy_changes)]"
    and b: "len_changes (Some legacy_changes) = 3"
    and c: "doc_commits legacy_doc = None"
    and d: "keyed_by_commit (Some legacy_changes)"
    by (simp_all add: legacy_defs len_changes_def keyed_by_commit_def)
  obtain s where s: "New insertionSort example_NewVersion (<) 0 (Some ''/var/lib/state'') True
      (Present legacy_doc) = Inr s"
    by (simp add: New_def legacy_doc_def zero_StoreDoc_def Let_def)
  have e: "get_commits s ''bp'' = [''c3'', ''c1'', ''c2'']"
    using s
    by (auto simp: New_def legacy_defs Let_def rebuild_commits_def get_changes_def
        get_commits_def len_changes_def range_changes_def insertionSort_def change_less_def
        version_of_def)
  from New_rebuilds_commits[OF sorts_insertionSort strict_weak_order_nat_less z(2) s a _ _,
      of "''bp''" "Some legacy_changes"]
  obtain sorted where
    "sorted_wrt (timestamp_then_version example_NewVersion (<)) sorted"
    "get_commits s ''bp'' = map Commit sorted"
    "GetBlueprintChanges s ''bp'' = sorted"
    using b c d by auto
  then show ?thesis
    using z a b c d s e by auto
qed



section \<open>Properties of the job queue\<close>

lemmas id_defs = id_a_def id_b_def id_c_def

lemma upt_16: "[0..<16] = [0, 1, 2, 3, 4, 5, 6, 7, 8, 9, 10, 11, 12, 13, 14, 15]"
  by code_simp

lemma uuid_less_a_b: "uuid_less id_a id_b" 
  by (simp add: uuid_less_def upt_16 id_defs)

lemma uuid_less_b_a: "uuid_less id_b id_a"
  by (simp add: uuid_less_def upt_16 id_defs)

lemma id_b_less_id_a: "id_b < id_a"
  by (simp add: id_defs)

lemma queue_a_eq:
  "queue_a = \<lparr>db = [id_a \<mapsto> Document \<lparr>job_Id = id_a, job_Type = ''test'', Args = ''\"A\"'',
               Dependencies = [], Result = [], job_Status = JobPending, QueuedAt = 1,
               StartedAt = 0, FinishedAt = 0\<rparr>],
             pending = [''test'' \<mapsto> [id_a]], dependants = Map.empty\<rparr>"
  by (simp add: queue_a_def Enqueue_def uniqueUUIDList_def range_keys_def insertionSort_def
      example_marshal_def empty_queue_def send_def pendingChannel_def channel_def Let_def)


lemma queue_ab_eq:
  "queue_ab = \<lparr>db = [id_a \<mapsto> Document \<lparr>job_Id = id_a, job_Type = ''test'', Args = ''\"A\"'',
               Dependencies = [], Result = [], job_Status = JobPending, QueuedAt = 1,
               StartedAt = 0, FinishedAt = 0\<rparr>,
               id_b \<mapsto> Document \<lparr>job_Id = id_b, job_Type = ''test'', Args = ''\"B\"'',
               Dependencies = [], Result = [], job_Status = JobPending, QueuedAt = 2,
               StartedAt = 0, FinishedAt = 0\<rparr>],
             pending = [''test'' \<mapsto> [id_a, id_b]], dependants = Map.empty\<rparr>"
  by (simp add: queue_ab_def queue_a_eq Enqueue_def uniqueUUIDList_def range_keys_def
      insertionSort_def example_marshal_def send_def pendingChannel_def channel_def Let_def)

lemma id_distinct: "id_a \<noteq> id_b" "id_a \<noteq> id_c" "id_b \<noteq> id_c" "id_b \<noteq> id_a" "id_c \<noteq> id_a" "id_c \<noteq> id_b"
  by (simp_all add: id_defs)

lemma uniqueUUIDList_b_a: "uniqueUUIDList insertionSort [id_b, id_a] [id_a, id_b] = [id_a, id_b]"
  using uuid_less_a_b id_distinct
  by (auto simp: uniqueUUIDList_def range_keys_def insertionSort_def)

lemma uniqueUUIDList_a_b: "uniqueUUIDList insertionSort [id_a, id_b] [id_b, id_a] = [id_b, id_a]"
  using uuid_less_b_a id_distinct
  by (auto simp: uniqueUUIDList_def range_keys_def insertionSort_def)

lemma countFinishedJobs_queue_ab:
  "countFinishedJobs queue_ab [id_a, id_b] = Inr 0" "countFinishedJobs queue_ab [id_b, id_a] = Inr 0"
  using id_distinct by (simp_all add: queue_ab_eq readJob_def)

text \<open>
  Claim C3 at the dependencies \<open>id_a\<close>, \<open>id_b\<close> of two existing jobs: when the map of
  \<^verbatim>\<open>uniqueUUIDList\<close> is visited in the order \<open>id_b\<close>, \<open>id_a\<close>, the job is persisted with the
  dependency list \<open>[id_a, id_b]\<close>, which descends bytewise; with the other order of the
  visit the same set of dependencies is persisted as \<open>[id_b, id_a]\<close>.  The comparison
  function holds in both directions between the two ids.
\<close>

theorem Enqueue_dependencies_unsorted:
  "fst (Enqueue insertionSort [id_b, id_a] example_marshal id_c 3 True ''test'' (Some ''C'')
          [id_a, id_b] queue_ab) = Returns (id_c, None) \<and>
   stored_dependencies
     (snd (Enqueue insertionSort [id_b, id_a] example_marshal id_c 3 True ''test'' (Some ''C'')
             [id_a, id_b] queue_ab)) id_c = Some [id_a, id_b] \<and>
   id_b < id_a \<and>
   uuid_less id_a id_b \<and> uuid_less id_b id_a \<and>
   fst (Enqueue insertionSort [id_a, id_b] example_marshal id_c 3 True ''test'' (Some ''C'')
          [id_b, id_a] queue_ab) = Returns (id_c, None) \<and>
   stored_dependencies
     (snd (Enqueue insertionSort [id_a, id_b] example_marshal id_c 3 True ''test'' (Some ''C'')
             [id_b, id_a] queue_ab)) id_c = Some [id_b, id_a]"
proof -
  have 1: "Enqueue insertionSort [id_b, id_a] example_marshal id_c 3 True ''test'' (Some ''C'')
          [id_a, id_b] queue_ab =
      (Returns (id_c, None),
       queue_ab\<lparr>db := (db queue_ab)(id_c \<mapsto> Document \<lparr>job_Id = id_c, job_Type = ''test'',
           Args = ''\"C\"'', Dependencies = [id_a, id_b], Result = [], job_Status = JobPending,
           QueuedAt = 3, StartedAt = 0, FinishedAt = 0\<rparr>),
         dependants := add_dependant id_c id_b (add_dependant id_c id_a (dependants queue_ab))\<rparr>)"
    by (simp add: Enqueue_def uniqueUUIDList_b_a countFinishedJobs_queue_ab example_marshal_def
        Let_def del: countFinishedJobs.simps)
  have 2: "Enqueue insertionSort [id_a, id_b] example_marshal id_c 3 True ''test'' (Some ''C'')
          [id_b, id_a] queue_ab =
      (Returns (id_c, None),
       queue_ab\<lparr>db := (db queue_ab)(id_c \<mapsto> Document \<lparr>job_Id = id_c, job_Type = ''test'',
           Args = ''\"C\"'', Dependencies = [id_b, id_a], Result = [], job_Status = JobPending,
           QueuedAt = 3, StartedAt = 0, FinishedAt = 0\<rparr>),
         dependants := add_dependant id_c id_a (add_dependant id_c id_b (dependants queue_ab))\<rparr>)"
    by (simp add: Enqueue_def uniqueUUIDList_a_b countFinishedJobs_queue_ab example_marshal_def
        Let_def del: countFinishedJobs.simps)
  show ?thesis
    unfolding 1 2 using uuid_less_a_b uuid_less_b_a id_b_less_id_a
    by (simp add: stored_dependencies_def)
qed


lemma set_uniqueUUIDList:
  "rearranges srt \<Longrightarrow> set (uniqueUUIDList srt ord ids) = set ids"
proof -
  assume "rearranges srt"
  then have "mset (srt uuid_less (range_keys ord ids)) = mset (range_keys ord ids)"
    by (simp add: rearranges_def)
  then have "set (srt uuid_less (range_keys ord ids)) = set (range_keys ord ids)"
    by (rule mset_eq_setD)
  then show ?thesis by (simp add: uniqueUUIDList_def range_keys_def)
qed

lemma distinct_uniqueUUIDList:
  "rearranges srt \<Longrightarrow> distinct (uniqueUUIDList srt ord ids)"
proof -
  assume "rearranges srt"
  then have "mset (srt uuid_less (range_keys ord ids)) = mset (range_keys ord ids)"
    by (simp add: rearranges_def)
  then have "distinct (srt uuid_less (range_keys ord ids)) = distinct (range_keys ord ids)"
    by (rule mset_eq_imp_distinct_iff)
  then show ?thesis by (simp add: uniqueUUIDList_def range_keys_def)
qed

lemma rearranges_insertionSort: "rearranges insertionSort"
  by (simp add: rearranges_def insertionSort_def mset_fold_sift)

lemma uniqueUUIDList_Nil: "rearranges srt \<Longrightarrow> uniqueUUIDList srt ord [] = []"
  using set_uniqueUUIDList[of srt ord "[]"] by simp

lemma countFinishedJobs_missing:
  "d \<in> set ids \<Longrightarrow> db q d = None \<Longrightarrow> \<exists>err. countFinishedJobs q ids = Inl err"
  by (induction ids) (auto simp: readJob_def split: sum.splits option.splits document.splits)

text \<open>
  Claim C5.  Whenever \<open>Enqueue\<close> returns an error, the id it returns is \<^verbatim>\<open>uuid.Nil\<close>
  and the queue (the job documents, the pending channels and the map of dependants) is
  as it was before the call.  It does return an error when the arguments cannot be
  marshaled, and when a dependency names no job.
\<close>

theorem Enqueue_failure_changes_nothing:
  "(Enqueue srt ord marshal new_id now write_ok jobType args dependencies q =
      (Returns (uid, Some err), q') \<longrightarrow> uid = uuid_Nil \<and> q' = q) \<and>
   (marshal args = None \<longrightarrow>
      (\<exists>err. Enqueue srt ord marshal new_id now write_ok jobType args dependencies q =
         (Returns (uuid_Nil, Some err), q))) \<and>
   (rearranges srt \<and> (\<exists>d \<in> set dependencies. db q d = None) \<longrightarrow>
      (\<exists>err. Enqueue srt ord marshal new_id now write_ok jobType args dependencies q =
         (Returns (uuid_Nil, Some err), q)))"
proof -
  have 1: "uid = uuid_Nil \<and> q' = q"
    if "Enqueue srt ord marshal new_id now write_ok jobType args dependencies q =
      (Returns (uid, Some err), q')"
    using that by (auto simp: Enqueue_def Let_def split: option.splits sum.splits if_splits)
  have 2: "\<exists>err. Enqueue srt ord marshal new_id now write_ok jobType args dependencies q =
         (Returns (uuid_Nil, Some err), q)" if "marshal args = None"
    using that by (simp add: Enqueue_def)
  have 3: "\<exists>err. Enqueue srt ord marshal new_id now write_ok jobType args dependencies q =
         (Returns (uuid_Nil, Some err), q)"
    if a: "rearranges srt \<and> (\<exists>d \<in> set dependencies. db q d = None)"
  proof -
    obtain d where "d \<in> set (uniqueUUIDList srt ord dependencies)" "db q d = None"
      using a set_uniqueUUIDList by blast
    then obtain e where "countFinishedJobs q (uniqueUUIDList srt ord dependencies) = Inl e"
      using countFinishedJobs_missing by blast
    then show ?thesis
      by (cases "marshal args") (simp_all add: Enqueue_def)
  qed
  show ?thesis using 1 2 3 by blast
qed


theorem Enqueue_failure_changes_nothing_witness:
  "example_marshal None = None \<and>
   Enqueue insertionSort [] example_marshal id_c 3 True ''test'' None [] queue_ab =
     (Returns (uuid_Nil, Some (QueueError ''error marshaling job arguments'')), queue_ab) \<and>
   rearranges (insertionSort :: (uuid \<Rightarrow> uuid \<Rightarrow> bool) \<Rightarrow> uuid list \<Rightarrow> uuid list) \<and>
   db queue_ab id_c = None \<and>
   Enqueue insertionSort [id_c] example_marshal id_c 3 True ''test'' (Some ''C'') [id_c] queue_ab =
     (Returns (uuid_Nil, Some ErrNotExist), queue_ab)"
proof -
  have a: "example_marshal None = None" by (simp add: example_marshal_def)
  have b: "db queue_ab id_c = None" using id_distinct by (simp add: queue_ab_eq)
  have c: "Enqueue insertionSort [] example_marshal id_c 3 True ''test'' None [] queue_ab =
     (Returns (uuid_Nil, Some (QueueError ''error marshaling job arguments'')), queue_ab)"
    by (simp add: Enqueue_def a)
  have d: "fst (Enqueue insertionSort [id_c] example_marshal id_c 3 True ''test'' (Some ''C'') [id_c] queue_ab) =
     Returns (uuid_Nil, Some ErrNotExist)"
    using b by (simp add: Enqueue_def example_marshal_def uniqueUUIDList_def range_keys_def
        insertionSort_def readJob_def Let_def)
  obtain r q' where e: "Enqueue insertionSort [id_c] example_marshal id_c 3 True ''test'' (Some ''C'') [id_c] queue_ab = (r, q')"
    by (cases "Enqueue insertionSort [id_c] example_marshal id_c 3 True ''test'' (Some ''C'') [id_c] queue_ab")
  then have r: "r = Returns (uuid_Nil, Some ErrNotExist)" using d by simp
  from Enqueue_failure_changes_nothing[of insertionSort "[id_c]" example_marshal id_c 3 True
      "''test''" "Some ''C''" "[id_c]" queue_ab uuid_Nil ErrNotExist q'] e r
  have "q' = queue_ab" by simp
  then show ?thesis using a b c e r rearranges_insertionSort by simp
qed

section \<open>Properties of the worker and of the round trip through the queue\<close>

lemma queue_a_running_eq:
  "queue_a_running = \<lparr>db = [id_a \<mapsto> Document \<lparr>job_Id = id_a, job_Type = ''test'', Args = ''\"A\"'',
               Dependencies = [], Result = [], job_Status = JobRunning, QueuedAt = 1,
               StartedAt = 5, FinishedAt = 0\<rparr>],
             pending = [''test'' \<mapsto> []], dependants = Map.empty\<rparr>"
  by (simp add: queue_a_running_def queue_a_eq Dequeue_def pendingChannel_def channel_def
      receive_def readJob_def example_unmarshal_def Let_def)

lemma FinishJob_queue_a_running:
  "FinishJob marshal_result 9 True id_a \<lparr>OSBuildOutput = None\<rparr> queue_a_running =
     (Returns None,
      \<lparr>db = [id_a \<mapsto> Document \<lparr>job_Id = id_a, job_Type = ''test'', Args = ''\"A\"'',
               Dependencies = [], Result = ''{}'', job_Status = JobFinished, QueuedAt = 1,
               StartedAt = 5, FinishedAt = 9\<rparr>],
       pending = [''test'' \<mapsto> []], dependants = Map.empty\<rparr>)"
  by (simp add: queue_a_running_eq FinishJob_def readJob_def marshal_result_def Let_def)

text \<open>
  How the compose state follows from the job status when the result, if the job is
  finished, carries an output.
\<close>

lemma composeStateFromJobStatus_mapping:
  "composeStateFromJobStatus JobPending output = Inr CWaiting \<and>
   composeStateFromJobStatus JobRunning output = Inr CRunning \<and>
   composeStateFromJobStatus JobFinished (Some r) = Inr (if Success r then CFinished else CFailed)"
  by (simp add: composeStateFromJobStatus_def)

text \<open>
  Claim C8 at a finished job whose result has no \<^verbatim>\<open>OSBuildOutput\<close>: the job \<open>id_a\<close> is
  enqueued, dequeued and finished with the result that the handler builds from a request
  without a result; the queue stores \<open>{}\<close> for it, and \<^verbatim>\<open>Server.JobStatus\<close> then dereferences
  the nil pointer instead of reporting Failed.
\<close>

theorem JobStatus_nil_output_panics:
  "fst (FinishJob marshal_result 9 True id_a \<lparr>OSBuildOutput = None\<rparr> queue_a_running) = Returns None \<and>
   JobStatus unmarshal_result id_a queue_a_finished =
     Inr (JobFinished, Some \<lparr>OSBuildOutput = None\<rparr>, 1, 5, 9) \<and>
   composeStateFromJobStatus JobFinished None = Inl NilPointerDereference \<and>
   Server_JobStatus unmarshal_result id_a queue_a_finished = Inl NilPointerDereference"
  by (simp add: queue_a_finished_def FinishJob_queue_a_running Server_JobStatus_def JobStatus_def
      readJob_def unmarshal_result_def composeStateFromJobStatus_def)

text \<open>
  Claim C7 on a queue in which another job of the same type is already waiting: the job
  \<open>id_b\<close> is enqueued with the arguments \<open>B\<close>, and the dequeue of its type that follows
  yields the job \<open>id_a\<close> and the arguments \<open>A\<close>.
\<close>

theorem Enqueue_Dequeue_fifo_counterexample:
  "fst (Enqueue insertionSort [] example_marshal id_b 2 True ''test'' (Some ''B'') [] queue_a) =
     Returns (id_b, None) \<and>
   fst (Dequeue example_unmarshal None None 0 5 True [''test'']
          (snd (Enqueue insertionSort [] example_marshal id_b 2 True ''test'' (Some ''B'') [] queue_a))) =
     Returns (id_a, None, Some (Some ''A'')) \<and>
   id_a \<noteq> id_b"
proof -
  have 1: "Enqueue insertionSort [] example_marshal id_b 2 True ''test'' (Some ''B'') [] queue_a =
      (Returns (id_b, None), queue_ab)"
    unfolding queue_ab_def
    by (simp add: queue_a_eq Enqueue_def uniqueUUIDList_def range_keys_def insertionSort_def
        example_marshal_def send_def pendingChannel_def channel_def Let_def)
  have 2: "fst (Dequeue example_unmarshal None None 0 5 True [''test''] queue_ab) =
      Returns (id_a, None, Some (Some ''A''))"
    by (simp add: queue_ab_eq Dequeue_def pendingChannel_def channel_def receive_def readJob_def
        example_unmarshal_def Let_def id_distinct)
  show ?thesis by (simp add: 1 2 id_distinct)
qed

text \<open>
  Claim C7, amended.  Let the codec of the arguments round-trip (\<^verbatim>\<open>json.Unmarshal\<close> into
  the out-argument decodes every document that \<^verbatim>\<open>json.Marshal\<close> produces back to the value
  marshaled), let the arguments be serializable, let no job of the type be waiting in the
  type's channel, and let the writes succeed.  Then enqueuing the arguments under the type
  without dependencies returns a job id, and the dequeue of that type that follows returns
  the same id and leaves the enqueued arguments in the out-argument.  The job is then
  Running.
\<close>

theorem Enqueue_Dequeue_roundtrip:
  assumes srt: "rearranges srt"
    and codec: "round_trips marshal unmarshal"
    and serializable: "marshal args \<noteq> None"
    and empty: "channel q jobType = []"
  shows "\<exists>q1 q2 j.
           Enqueue srt ord marshal new_id now True jobType args [] q = (Returns (new_id, None), q1) \<and>
           Dequeue unmarshal None None chosen now' True [jobType] q1 =
             (Returns (new_id, None, Some args), q2) \<and>
           readJob q2 new_id = Inr j \<and> job_Status j = JobRunning"
proof -
  obtain doc where marshal: "marshal args = Some doc"
    using serializable by auto
  have unmarshal: "unmarshal doc = Some args"
    using codec marshal unfolding round_trips_def by blast
  define j where
    "j = \<lparr>job_Id = new_id, job_Type = jobType, Args = doc, Dependencies = [], Result = [],
          job_Status = JobPending, QueuedAt = now, StartedAt = 0, FinishedAt = 0\<rparr>"
  define q1 where
    "q1 = q\<lparr>db := (db q)(new_id \<mapsto> Document j), pending := (pending q)(jobType \<mapsto> [new_id])\<rparr>"
  define q2 where
    "q2 = q1\<lparr>pending := (pending q1)(jobType \<mapsto> []),
             db := (db q1)(new_id \<mapsto> Document (j\<lparr>job_Status := JobRunning, StartedAt := now'\<rparr>))\<rparr>"
  have deps: "uniqueUUIDList srt ord [] = []"
    using srt by (rule uniqueUUIDList_Nil)
  have snd: "send jobType new_id (q\<lparr>db := m\<rparr>) =
      Some (q\<lparr>db := m, pending := (pending q)(jobType \<mapsto> [new_id])\<rparr>)" for m
    using empty
    by (auto simp: send_def pendingChannel_def channel_def Let_def split: option.splits)
  have enq: "Enqueue srt ord marshal new_id now True jobType args [] q = (Returns (new_id, None), q1)"
    by (simp add: Enqueue_def deps marshal snd q1_def j_def Let_def)
  have ch: "channel q1 jobType = [new_id]" "pendingChannel jobType q1 = q1"
    by (simp_all add: q1_def channel_def pendingChannel_def)
  have fields: "Args j = doc" "job_Id j = new_id"
    by (simp_all add: j_def)
  have rd: "readJob (receive jobType q1) new_id = Inr j"
    by (simp add: readJob_def receive_def q1_def)
  have deq: "Dequeue unmarshal None None chosen now' True [jobType] q1 =
      (Returns (new_id, None, Some args), q2)"
    by (simp add: Dequeue_def ch rd unmarshal fields Let_def)
       (simp add: q2_def receive_def ch)
  have rd2: "readJob q2 new_id = Inr (j\<lparr>job_Status := JobRunning, StartedAt := now'\<rparr>)"
    by (simp add: readJob_def q2_def)
  show ?thesis
    using enq deq rd2 by (auto simp: j_def)
qed

lemma round_trips_example: "round_trips example_marshal example_unmarshal"
  unfolding round_trips_def
  by (auto simp: example_marshal_def example_unmarshal_def split: option.splits)

theorem Enqueue_Dequeue_roundtrip_witness:
  "rearranges (insertionSort :: (uuid \<Rightarrow> uuid \<Rightarrow> bool) \<Rightarrow> uuid list \<Rightarrow> uuid list) \<and>
   round_trips example_marshal example_unmarshal \<and>
   example_marshal (Some ''A'') \<noteq> None \<and>
   channel empty_queue ''test'' = [] \<and>
   fst (Enqueue insertionSort [] example_marshal id_a 1 True ''test'' (Some ''A'') [] empty_queue) =
     Returns (id_a, None) \<and>
   fst (Dequeue example_unmarshal None None 0 5 True [''test'']
          (snd (Enqueue insertionSort [] example_marshal id_a 1 True ''test'' (Some ''A'') [] empty_queue))) =
     Returns (id_a, None, Some (Some ''A''))"
proof -
  have a: "example_marshal (Some ''A'') \<noteq> None" by (simp add: example_marshal_def)
  have c: "channel empty_queue ''test'' = []" by (simp add: channel_def empty_queue_def)
  from Enqueue_Dequeue_roundtrip[of insertionSort example_marshal example_unmarshal "Some ''A''"
      empty_queue "''test''" "[]" id_a 1 0 5]
  show ?thesis using rearranges_insertionSort round_trips_example a c by auto
qed

end
